theory Spec2Isabelle
  imports Complex_Main "HOL-Library.Multiset"
begin

section \<open>Altitude-bin discovery: \<^verbatim>\<open>select_alt_groups.c\<close>\<close>

text \<open>
  A shallow embedding of \<^verbatim>\<open>select_alt_groups\<close> and \<^verbatim>\<open>sort_expand_boundaries\<close>.

  \<^item> A C \<^verbatim>\<open>float\<close> or \<^verbatim>\<open>double\<close> value is the \<^typ>\<open>real\<close> number it denotes.  Every
    arithmetic operation of the two functions is rounded to the type C gives it:
    \<open>f32\<close> rounds to IEEE 754 binary32, \<open>f64\<close> to binary64, to nearest, ties to even,
    each operation on its own (\<^verbatim>\<open>FLT_EVAL_METHOD\<close> 0, no contraction).  An operation
    of two \<^verbatim>\<open>float\<close> operands is rounded to binary32; an operation with a \<^verbatim>\<open>double\<close>
    operand or a literal such as \<^verbatim>\<open>0.5\<close> is rounded to binary64, and rounded again when
    the result is stored in a \<^verbatim>\<open>float\<close>.  There is no infinity and no NaN: the model
    covers magnitudes below \<open>2 ^ 128\<close>.
  \<^item> Lines 199-229 are the exception: the two-sigma and three-sigma limits of a fitted
    component and its amplitude are taken as they are computed in \<^verbatim>\<open>double\<close>, without the
    rounding of their store in a \<^verbatim>\<open>float\<close>.
  \<^item> C \<^verbatim>\<open>int\<close> values are modelled by \<^typ>\<open>int\<close>.  The only places where a value can
    leave the range of \<^verbatim>\<open>int\<close> are the casts \<^verbatim>\<open>(int)x\<close>, see \<open>c_int\<close>.
  \<^item> Every array is a list of the allocated length.  A read or write outside the
    allocation is undefined behaviour in C; the model stops with \<open>Out_Of_Bounds l\<close>,
    where \<open>l\<close> is the source line of the access.
  \<^item> \<^verbatim>\<open>exit(1)\<close> after a diagnostic is a fault value, one per message.
  \<^item> The merge loop of \<^verbatim>\<open>sort_expand_boundaries\<close> can assign its own loop index, so it
    is a partial function: \<open>None\<close> means that the call does not return.
\<close>

subsection \<open>Faults, arrays, numeric conversions\<close>

datatype fault =
    Range_Too_Small            \<comment> \<open>line 81: vheight range too small for a histogram analysis\<close>
  | Suggested_Width_Too_Many   \<comment> \<open>line 121: suggested width created too many vheight bins\<close>
  | Fits_Too_Many              \<comment> \<open>line 221: histogram fits created too many vheight bins\<close>
  | Boundary_Limit_Exceeded    \<comment> \<open>lines 366, 465: exceeded new virtual height boundary limits\<close>
  | Out_Of_Bounds nat          \<comment> \<open>array access outside its allocation, at this source line\<close>
  | Uninitialized_Read nat     \<comment> \<open>read of a \<^verbatim>\<open>malloc\<close>'ed cell that was never written\<close>
  | Non_Finite nat             \<comment> \<open>a quotient with divisor zero is stored, at this source line\<close>

text \<open>Sequencing of fallible steps: the first fault ends the computation.\<close>

definition thn :: "fault + 'a \<Rightarrow> ('a \<Rightarrow> fault + 'b) \<Rightarrow> fault + 'b" where
  "thn r f = (case r of Inl e \<Rightarrow> Inl e | Inr v \<Rightarrow> f v)"

definition rd :: "nat \<Rightarrow> 'a list \<Rightarrow> int \<Rightarrow> fault + 'a" where
  "rd l xs i = (if 0 \<le> i \<and> i < int (length xs) then Inr (xs ! nat i) else Inl (Out_Of_Bounds l))"

definition wr :: "nat \<Rightarrow> 'a list \<Rightarrow> int \<Rightarrow> 'a \<Rightarrow> fault + 'a list" where
  "wr l xs i v = (if 0 \<le> i \<and> i < int (length xs) then Inr (xs[nat i := v]) else Inl (Out_Of_Bounds l))"

text \<open>
  Rounding.  A finite binary floating-point number with \<open>p + 1\<close> significant bits is a
  whole multiple of \<open>2 ^ (e - p)\<close>, where \<open>2 ^ e\<close> is the power of two at or below its
  magnitude; below the smallest normal number \<open>2 ^ (1 - emax)\<close> the spacing stays that
  of the lowest binade.  \<open>round_even\<close> is the nearest whole number, the even one on a tie.
\<close>

definition round_even :: "real \<Rightarrow> int" where
  "round_even t =
     (let f = \<lfloor>t\<rfloor>; r = t - of_int f
      in if r < 1 / 2 then f else if 1 / 2 < r then f + 1 else if even f then f else f + 1)"

text \<open>For \<open>1 \<le> x\<close>: the largest \<open>e \<le> emax\<close> with \<open>2 ^ e \<le> x\<close>, searched upwards from \<open>e\<close>.\<close>

function ilog_up :: "nat \<Rightarrow> nat \<Rightarrow> real \<Rightarrow> nat" where
  "ilog_up emax e x = (if e < emax \<and> 2 ^ (e + 1) \<le> x then ilog_up emax (e + 1) x else e)"
  by pat_completeness auto
termination
  by (relation "measure (\<lambda>(emax, e, x). emax - e)") auto

declare ilog_up.simps [simp del]

text \<open>For \<open>0 < x < 1\<close>: the least \<open>e \<le> emin\<close> with \<open>1 \<le> x * 2 ^ e\<close>, else \<open>emin\<close>.\<close>

function ilog_down :: "nat \<Rightarrow> nat \<Rightarrow> real \<Rightarrow> nat" where
  "ilog_down emin e x = (if e < emin \<and> x * 2 ^ e < 1 then ilog_down emin (e + 1) x else e)"
  by pat_completeness auto
termination
  by (relation "measure (\<lambda>(emin, e, x). emin - e)") auto

declare ilog_down.simps [simp del]

definition fl :: "nat \<Rightarrow> nat \<Rightarrow> real \<Rightarrow> real" where
  "fl p emax x =
     (if x = 0 then 0
      else if 1 \<le> \<bar>x\<bar> then
        (let e = ilog_up emax 0 \<bar>x\<bar>
         in if p \<le> e then of_int (round_even (x / 2 ^ (e - p))) * 2 ^ (e - p)
            else of_int (round_even (x * 2 ^ (p - e))) / 2 ^ (p - e))
      else
        (let e = ilog_down (emax - 1) 0 \<bar>x\<bar>
         in of_int (round_even (x * 2 ^ (e + p))) / 2 ^ (e + p)))"

text \<open>\<^verbatim>\<open>float\<close>: 24 significant bits, largest exponent 127.\<close>

definition f32 :: "real \<Rightarrow> real" where
  "f32 = fl 23 127"

text \<open>\<^verbatim>\<open>double\<close>: 53 significant bits, largest exponent 1023.\<close>

definition f64 :: "real \<Rightarrow> real" where
  "f64 = fl 52 1023"

text \<open>
  The cast \<^verbatim>\<open>(int)x\<close> truncates towards zero.  When the truncated value is outside the
  range of \<^verbatim>\<open>int\<close> the cast is undefined in C; the model takes the value that the
  conversion instructions of x86-64 deliver, \<^verbatim>\<open>INT_MIN\<close>.
\<close>

definition int_min :: int where
  "int_min = - (2 ^ 31)"

definition c_int :: "real \<Rightarrow> int" where
  "c_int x =
     (let t = (if 0 \<le> x then \<lfloor>x\<rfloor> else \<lceil>x\<rceil>)
      in if int_min \<le> t \<and> t < 2 ^ 31 then t else int_min)"

text \<open>
  \<^verbatim>\<open>(int)(a / b)\<close> for two \<^verbatim>\<open>float\<close> operands.  With a zero divisor the quotient is an
  infinity or a NaN, and the cast is out of range.
\<close>

definition quot_int :: "real \<Rightarrow> real \<Rightarrow> int" where
  "quot_int a b = (if b = 0 then int_min else c_int (f32 (a / b)))"

text \<open>
  \<^verbatim>\<open>floor\<close> and \<^verbatim>\<open>ceil\<close> of \<^verbatim>\<open>math.h\<close> return a floating-point value.  Both are exact, and
  the whole number next to a \<^verbatim>\<open>float\<close> is a \<^verbatim>\<open>float\<close> again, so that storing it does not
  round.
\<close>

definition c_floor :: "real \<Rightarrow> real" where
  "c_floor x = of_int \<lfloor>x\<rfloor>"

definition c_ceil :: "real \<Rightarrow> real" where
  "c_ceil x = of_int \<lceil>x\<rceil>"

subsection \<open>The stable argsort used by the reconciler\<close>

text \<open>
  Modelled from the spec: \<^verbatim>\<open>smart_argsort_float\<close> is declared in
  \<^verbatim>\<open>sort_expand_boundaries\<close> but defined elsewhere in the toolkit.  The spec gives its
  contract: the permutation of the indices \<open>0 .. num - 1\<close> that sorts the values
  ascending, stable on ties.
\<close>

definition smart_argsort_float :: "int \<Rightarrow> real list \<Rightarrow> int list" where
  "smart_argsort_float num array =
     map int (sort_key (\<lambda>i. array ! i) [0 ..< min (nat num) (length array)])"

subsection \<open>\<^verbatim>\<open>sort_expand_boundaries\<close>: working state\<close>

text \<open>
  The local arrays \<^verbatim>\<open>new_mins\<close>, \<^verbatim>\<open>new_maxs\<close>, \<^verbatim>\<open>new_peaks\<close>, \<^verbatim>\<open>priority\<close>
  (each \<^verbatim>\<open>calloc(max_vbin)\<close>), the fill count \<^verbatim>\<open>inew\<close> and the loop index \<^verbatim>\<open>i\<close>.
\<close>

record merge_state =
  idx :: int
  inew :: int
  new_mins :: "real list"
  new_maxs :: "real list"
  new_peaks :: "real list"
  priority :: "int list"

text \<open>
  Every insertion in the source is the same five statements:
  \<^verbatim>\<open>new_mins[inew] = a; new_maxs[inew] = b; new_peaks[inew] = c; priority[inew] = p; inew++;\<close>
\<close>

definition push :: "nat \<Rightarrow> merge_state \<Rightarrow> real \<Rightarrow> real \<Rightarrow> real \<Rightarrow> int \<Rightarrow> fault + merge_state" where
  "push l st a b c p =
     thn (wr l (new_mins st) (inew st) a) (\<lambda>mins.
     thn (wr l (new_maxs st) (inew st) b) (\<lambda>maxs.
     thn (wr l (new_peaks st) (inew st) c) (\<lambda>peaks.
     thn (wr l (priority st) (inew st) p) (\<lambda>prio.
       Inr (st\<lparr>inew := inew st + 1, new_mins := mins, new_maxs := maxs,
                new_peaks := peaks, priority := prio\<rparr>)))))"

subsection \<open>Lower-range filler (lines 333-372)\<close>

function lower_fill ::
  "int \<Rightarrow> int \<Rightarrow> real \<Rightarrow> real \<Rightarrow> int \<Rightarrow> int \<Rightarrow> merge_state \<Rightarrow> fault + merge_state" where
  "lower_fill num max_vbin local_min vspan vnum i st =
     (if i < vnum then
        (let hmin0 = f32 (local_min + f32 (f32 (of_int i) * vspan));
             hmin = (if hmin0 < local_min then local_min else hmin0)
         in thn (push 358 st (c_floor hmin) (c_ceil (f32 (hmin + vspan)))
                   (f32 (f64 (hmin + f64 (0.5 * vspan)))) (inew st + num)) (\<lambda>st'.
              if inew st' \<ge> max_vbin then Inl Boundary_Limit_Exceeded
              else lower_fill num max_vbin local_min vspan vnum (i + 1) st'))
      else Inr st)"
  by pat_completeness auto
termination
  by (relation "measure (\<lambda>(num, max_vbin, local_min, vspan, vnum, i, st). nat (vnum - i))") auto

declare lower_fill.simps [simp del]

text \<open>
  Lines 333-372.  The result is the state after the filler and the array \<^verbatim>\<open>vh_mins\<close>,
  whose lowest entry is overwritten when the outlying points are close.
\<close>

definition lower_range ::
  "int \<Rightarrow> int \<Rightarrow> real \<Rightarrow> real \<Rightarrow> real \<Rightarrow> real list \<Rightarrow> int list \<Rightarrow> merge_state
     \<Rightarrow> fault + (real list \<times> merge_state)" where
  "lower_range num max_vbin local_min vh_min vh_box vh_mins sortargs st =
     thn (rd 333 sortargs 0) (\<lambda>s0.
     thn (rd 333 vh_mins s0) (\<lambda>low.
       if low > local_min then
         (let gap = f32 (low - local_min);
              vnum = quot_int gap vh_box
          in if vnum = 0 then
               (let v = c_floor local_min;
                    v' = (if v < vh_min then vh_min else v)
                in thn (wr 340 vh_mins s0 v') (\<lambda>vh_mins'. Inr (vh_mins', st)))
             else
               thn (lower_fill num max_vbin local_min (f32 (gap / f32 (of_int vnum))) vnum 0 st)
                 (\<lambda>st'. Inr (vh_mins, st')))
       else Inr (vh_mins, st)))"

subsection \<open>Merge pass (lines 375-468)\<close>

text \<open>
  The backward collapse of line 401, \<^verbatim>\<open>while(hmin <= new_mins[inew - 1] && inew > 0) inew--;\<close>
  The left operand of \<^verbatim>\<open>&&\<close> is evaluated first, so the array is read before \<^verbatim>\<open>inew > 0\<close>
  is tested.
\<close>

function collapse :: "real \<Rightarrow> real list \<Rightarrow> int \<Rightarrow> fault + int" where
  "collapse hmin mins n =
     (case rd 401 mins (n - 1) of
        Inl e \<Rightarrow> Inl e
      | Inr v \<Rightarrow> if hmin \<le> v \<and> n > 0 then collapse hmin mins (n - 1) else Inr n)"
  by pat_completeness auto
termination
  by (relation "measure (\<lambda>(hmin, mins, n). nat n)") (auto simp: rd_def split: if_splits)

declare collapse.simps [simp del]

text \<open>The overlap branch, lines 387-407.  \<open>s\<close> is \<^verbatim>\<open>sortargs[i]\<close>.\<close>

definition resolve_overlap ::
  "int \<Rightarrow> real list \<Rightarrow> int \<Rightarrow> real \<Rightarrow> merge_state \<Rightarrow> fault + merge_state" where
  "resolve_overlap num vh_maxs s hmin st =
     thn (rd 389 (priority st) (inew st - 1)) (\<lambda>p.
       if p < s then
         thn (rd 391 (new_maxs st) (inew st - 1)) (\<lambda>lo.
         thn (rd 392 vh_maxs s) (\<lambda>cmax.
           let hi = c_ceil cmax
           in push 391 st lo hi (f32 (f64 (lo + f64 (0.5 * f32 (hi - lo))))) (inew st + num)))
       else
         thn (collapse hmin (new_mins st) (inew st)) (\<lambda>n.
           if n > 0 then
             thn (wr 406 (new_maxs st) (n - 1) hmin) (\<lambda>maxs.
               Inr (st\<lparr>inew := n, new_maxs := maxs\<rparr>))
           else Inr (st\<lparr>inew := n\<rparr>)))"

text \<open>
  The bridging loop of lines 426-434.  It runs on the variable \<^verbatim>\<open>i\<close> of the enclosing
  loop; the caller stores the final value of the counter back into the loop index.
\<close>

function bridge_fill :: "int \<Rightarrow> real \<Rightarrow> int \<Rightarrow> int \<Rightarrow> merge_state \<Rightarrow> fault + merge_state" where
  "bridge_fill num vspan vnum i st =
     (if i < vnum then
        thn (rd 429 (new_maxs st) (inew st - 1)) (\<lambda>lo.
        thn (push 429 st lo (c_ceil (f32 (lo + vspan))) (f32 (f64 (lo + f64 (0.5 * vspan))))
               (inew st + num)) (\<lambda>st'.
          bridge_fill num vspan vnum (i + 1) st'))
      else Inr (st\<lparr>idx := i\<rparr>))"
  by pat_completeness auto
termination
  by (relation "measure (\<lambda>(num, vspan, vnum, i, st). nat (vnum - i))") auto

declare bridge_fill.simps [simp del]

text \<open>The gap branch, lines 409-436.\<close>

definition bridge_gap :: "int \<Rightarrow> real \<Rightarrow> real \<Rightarrow> real \<Rightarrow> merge_state \<Rightarrow> fault + merge_state" where
  "bridge_gap num vh_box hmin last_max st =
     (let gap = f32 (hmin - last_max);
          vnum = quot_int gap vh_box
      in if vnum = 0 then
           thn (wr 420 (new_maxs st) (inew st - 1) hmin) (\<lambda>maxs. Inr (st\<lparr>new_maxs := maxs\<rparr>))
         else bridge_fill num (f32 (gap / f32 (of_int vnum))) vnum 0 st)"

text \<open>Appending the candidate itself: lines 440-447 (\<open>first = False\<close>) and 453-460.\<close>

definition add_candidate ::
  "bool \<Rightarrow> real list \<Rightarrow> real list \<Rightarrow> int \<Rightarrow> real \<Rightarrow> merge_state \<Rightarrow> fault + merge_state" where
  "add_candidate first vh_maxs vh_peaks s hmin st =
     thn (rd 440 vh_maxs s) (\<lambda>cmax.
       if hmin < cmax then
         thn (rd 444 vh_peaks s) (\<lambda>pk.
           push 442 st (if first then c_floor hmin else hmin) (c_ceil cmax) pk s)
       else Inr st)"

text \<open>
  One pass through the body of the loop of line 375, the capacity test of line 463 and
  the increment \<^verbatim>\<open>i++\<close>.
\<close>

definition merge_candidate ::
  "int \<Rightarrow> int \<Rightarrow> real \<Rightarrow> real list \<Rightarrow> real list \<Rightarrow> real list \<Rightarrow> int list \<Rightarrow> merge_state
     \<Rightarrow> fault + merge_state" where
  "merge_candidate num max_vbin vh_box vh_mins vh_maxs vh_peaks sortargs st =
     thn (rd 378 sortargs (idx st)) (\<lambda>s.
     thn (rd 378 vh_mins s) (\<lambda>hmin.
     thn (if inew st > 0 then
            thn (rd 384 (new_maxs st) (inew st - 1)) (\<lambda>last_max.
            thn (rd 384 vh_peaks s) (\<lambda>pk.
            thn (if last_max \<ge> pk then Inr True
                 else thn (rd 385 (new_peaks st) (inew st - 1)) (\<lambda>last_peak.
                        Inr (hmin \<le> last_peak))) (\<lambda>overlap.
              if overlap then resolve_overlap num vh_maxs s hmin st
              else if last_max < hmin then bridge_gap num vh_box hmin last_max st
              else add_candidate False vh_maxs vh_peaks s hmin st)))
          else add_candidate True vh_maxs vh_peaks s hmin st) (\<lambda>st'.
       if inew st' \<ge> max_vbin then Inl Boundary_Limit_Exceeded
       else Inr (st'\<lparr>idx := idx st' + 1\<rparr>))))"

text \<open>The loop \<^verbatim>\<open>for(i = 0; i < num; i++)\<close> of line 375, entered with \<open>idx = 0\<close>.\<close>

partial_function (option) merge_loop ::
  "int \<Rightarrow> int \<Rightarrow> real \<Rightarrow> real list \<Rightarrow> real list \<Rightarrow> real list \<Rightarrow> int list \<Rightarrow> merge_state
     \<Rightarrow> (fault + merge_state) option" where
  "merge_loop num max_vbin vh_box vh_mins vh_maxs vh_peaks sortargs st =
     (if idx st < num then
        (case merge_candidate num max_vbin vh_box vh_mins vh_maxs vh_peaks sortargs st of
           Inl e \<Rightarrow> Some (Inl e)
         | Inr st' \<Rightarrow> merge_loop num max_vbin vh_box vh_mins vh_maxs vh_peaks sortargs st')
      else Some (Inr st))"

declare merge_loop.simps [code]

subsection \<open>Upper-range filler (lines 470-500)\<close>

function upper_fill :: "int \<Rightarrow> real \<Rightarrow> real \<Rightarrow> int \<Rightarrow> int \<Rightarrow> merge_state \<Rightarrow> fault + merge_state" where
  "upper_fill num vh_max vspan vnum i st =
     (if i < vnum then
        thn (rd 486 (new_maxs st) (inew st - 1)) (\<lambda>lo.
          if lo < vh_max then
            (let hmin0 = f32 (lo + vspan);
                 hmin = (if hmin0 > vh_max then vh_max else hmin0)
             in thn (push 493 st lo (c_ceil hmin) (f32 (f64 (f64 (0.5 * f32 (hmin - lo)) + lo)))
                       (inew st + num)) (\<lambda>st'.
                  upper_fill num vh_max vspan vnum (i + 1) st'))
          else Inr st)
      else Inr st)"
  by pat_completeness auto
termination
  by (relation "measure (\<lambda>(num, vh_max, vspan, vnum, i, st). nat (vnum - i))") auto

declare upper_fill.simps [simp del]

definition upper_range ::
  "int \<Rightarrow> real \<Rightarrow> real \<Rightarrow> real \<Rightarrow> merge_state \<Rightarrow> fault + merge_state" where
  "upper_range num local_max vh_max vh_box st =
     thn (if num = 0 then Inr True
          else thn (rd 471 (new_maxs st) (inew st - 1)) (\<lambda>last_max.
                 Inr (last_max < local_max))) (\<lambda>above.
       if above then
         thn (rd 473 (new_maxs st) (inew st - 1)) (\<lambda>last_max.
           (let gap = f32 (local_max - last_max);
                vnum = quot_int gap vh_box
            in if vnum = 0 then
                 (let v = c_ceil local_max;
                      v' = (if v > vh_max then vh_max else v)
                  in thn (wr 479 (new_maxs st) (inew st - 1) v') (\<lambda>maxs.
                       Inr (st\<lparr>new_maxs := maxs\<rparr>)))
               else upper_fill num vh_max (f32 (gap / f32 (of_int vnum))) vnum 0 st))
       else Inr st)"

subsection \<open>\<^verbatim>\<open>sort_expand_boundaries\<close> (lines 307-518)\<close>

text \<open>
  Lines 503-508: the first \<^verbatim>\<open>inew\<close> cells of a caller's array are overwritten with the
  local array; the other cells keep their content.
\<close>

definition copy_out :: "nat \<Rightarrow> int \<Rightarrow> real list \<Rightarrow> real list \<Rightarrow> fault + real list" where
  "copy_out l n src dst =
     (if n \<le> 0 then Inr dst
      else if n \<le> int (length src) \<and> n \<le> int (length dst)
           then Inr (take (nat n) src @ drop (nat n) dst)
      else Inl (Out_Of_Bounds l))"

text \<open>What the call leaves behind: the returned count and the three in/out arrays.\<close>

record bins =
  count :: int
  mins :: "real list"
  maxs :: "real list"
  peaks :: "real list"

definition finish :: "real list \<Rightarrow> real list \<Rightarrow> real list \<Rightarrow> merge_state \<Rightarrow> fault + bins" where
  "finish vh_mins vh_maxs vh_peaks st =
     thn (copy_out 505 (inew st) (new_mins st) vh_mins) (\<lambda>a.
     thn (copy_out 506 (inew st) (new_maxs st) vh_maxs) (\<lambda>b.
     thn (copy_out 507 (inew st) (new_peaks st) vh_peaks) (\<lambda>c.
       Inr \<lparr>count = inew st, mins = a, maxs = b, peaks = c\<rparr>)))"

definition init_state :: "int \<Rightarrow> merge_state" where
  "init_state max_vbin =
     \<lparr>idx = 0, inew = 0,
      new_mins = replicate (nat max_vbin) 0, new_maxs = replicate (nat max_vbin) 0,
      new_peaks = replicate (nat max_vbin) 0, priority = replicate (nat max_vbin) 0\<rparr>"

definition sort_expand_boundaries ::
  "int \<Rightarrow> int \<Rightarrow> real \<Rightarrow> real \<Rightarrow> real \<Rightarrow> real \<Rightarrow> real \<Rightarrow> real list \<Rightarrow> real list \<Rightarrow> real list
     \<Rightarrow> (fault + bins) option" where
  "sort_expand_boundaries num max_vbin local_min local_max vh_min vh_max vh_box
       vh_mins vh_maxs vh_peaks =
     (if num = 0 then Some (Inr \<lparr>count = 0, mins = vh_mins, maxs = vh_maxs, peaks = vh_peaks\<rparr>)
      else
        let sortargs = smart_argsort_float num vh_mins
        in case lower_range num max_vbin local_min vh_min vh_box vh_mins sortargs
                  (init_state max_vbin) of
             Inl e \<Rightarrow> Some (Inl e)
           | Inr (vh_mins', st0) \<Rightarrow>
               (case merge_loop num max_vbin vh_box vh_mins' vh_maxs vh_peaks sortargs
                       (st0\<lparr>idx := 0\<rparr>) of
                  None \<Rightarrow> None
                | Some (Inl e) \<Rightarrow> Some (Inl e)
                | Some (Inr st1) \<Rightarrow>
                    Some (thn (upper_range num local_max vh_max vh_box st1)
                            (finish vh_mins' vh_maxs vh_peaks))))"

subsection \<open>\<^verbatim>\<open>select_alt_groups\<close>: the collaborators\<close>

text \<open>
  \<^verbatim>\<open>histogram\<close>, \<^verbatim>\<open>int_argrelmax\<close>, \<^verbatim>\<open>int_argabsmax\<close>, \<^verbatim>\<open>float_absmin\<close>,
  \<^verbatim>\<open>float_absmax\<close> (\<^verbatim>\<open>stat_utils.h\<close>) and \<^verbatim>\<open>mpfit\<close> with its residual function
  \<^verbatim>\<open>mult_gaussian_dev\<close> are called by \<^verbatim>\<open>select_alt_groups\<close> and defined elsewhere.  The
  embedding takes them as parameters, each a function of the arguments the call passes
  to the values the call leaves behind:
  \<^item> \<open>histogram num vh nbin vh_min vh_max = (hist_bins, hist_edges)\<close>;
  \<^item> \<open>int_argrelmax nbin hist_bins 2 1 = (nmax, ismax)\<close>;
  \<^item> \<open>int_argabsmax nbin hist_bins\<close>, \<open>float_absmin num vh\<close>, \<open>float_absmax num vh\<close>;
  \<^item> \<open>mpfit nbin 3 params x y = (status, params')\<close>, the parameter array being updated
    in place.
\<close>

record collab =
  histogram :: "int \<Rightarrow> real list \<Rightarrow> int \<Rightarrow> real \<Rightarrow> real \<Rightarrow> int list \<times> real list"
  int_argrelmax :: "int \<Rightarrow> int list \<Rightarrow> int \<Rightarrow> int \<Rightarrow> int \<times> int list"
  int_argabsmax :: "int \<Rightarrow> int list \<Rightarrow> int"
  float_absmin :: "int \<Rightarrow> real list \<Rightarrow> real"
  float_absmax :: "int \<Rightarrow> real list \<Rightarrow> real"
  mpfit :: "int \<Rightarrow> int \<Rightarrow> real list \<Rightarrow> real list \<Rightarrow> real list \<Rightarrow> int \<times> real list"

subsection \<open>Histogram size and maxima (lines 77-107)\<close>

text \<open>
  Lines 77-78.  The difference is a \<^verbatim>\<open>float\<close>; the product with the literal \<^verbatim>\<open>0.25\<close> and
  the quotient are \<^verbatim>\<open>double\<close>.
\<close>

definition hist_bin_count :: "real \<Rightarrow> real \<Rightarrow> real \<Rightarrow> int" where
  "hist_bin_count vh_min vh_max vh_box =
     (let a = f32 (vh_max - vh_min);
          b = f64 (vh_box * 0.25);
          nbin = (if b = 0 then int_min else c_int (f64 (a / b)))
      in if nbin > 10 then 10 else nbin)"

text \<open>
  Lines 100-107, \<open>i\<close> being the result of \<^verbatim>\<open>int_argabsmax\<close>:
  \<^verbatim>\<open>if(ismax[i] == 0 && hist_bins[nmax] >= min_pnts) { ismax[nmax] = 1; nmax++; }\<close>
\<close>

definition add_absmax :: "int list \<Rightarrow> int list \<Rightarrow> int \<Rightarrow> int \<Rightarrow> int \<Rightarrow> fault + (int list \<times> int)" where
  "add_absmax hist_bins ismax nmax i min_pnts =
     thn (rd 103 ismax i) (\<lambda>flag.
       if flag = 0 then
         thn (rd 103 hist_bins nmax) (\<lambda>c.
           if c \<ge> min_pnts then
             thn (wr 105 ismax nmax 1) (\<lambda>ismax'. Inr (ismax', nmax + 1))
           else Inr (ismax, nmax))
       else Inr (ismax, nmax))"

subsection \<open>No maximum: the suggested width (lines 114-131)\<close>

function uniform_fill ::
  "real \<Rightarrow> real \<Rightarrow> int \<Rightarrow> int \<Rightarrow> real list \<Rightarrow> real list \<Rightarrow> real list
     \<Rightarrow> fault + (real list \<times> real list \<times> real list)" where
  "uniform_fill vmin vh_box npeaks i vh_mins vh_maxs vh_peaks =
     (if i < npeaks then
        thn (wr 127 vh_mins i (f32 (vmin + f32 (f32 (of_int i) * vh_box)))) (\<lambda>a.
        thn (rd 128 a i) (\<lambda>lo.
        thn (wr 128 vh_maxs i (f32 (lo + vh_box))) (\<lambda>b.
        thn (wr 129 vh_peaks i (f32 (f64 (vmin + f64 (0.5 * vh_box))))) (\<lambda>c.
          uniform_fill vmin vh_box npeaks (i + 1) a b c))))
      else Inr (vh_mins, vh_maxs, vh_peaks))"
  by pat_completeness auto
termination
  by (relation "measure (\<lambda>(vmin, vh_box, npeaks, i, a, b, c). nat (npeaks - i))") auto

declare uniform_fill.simps [simp del]

text \<open>
  Line 116: the difference is a \<^verbatim>\<open>float\<close>, converted to \<^verbatim>\<open>double\<close> for the quotient;
  with a zero divisor the cast is out of range.  Line 117 is all in \<^verbatim>\<open>float\<close>.  When
  \<open>npeaks = 0\<close> its quotient has a zero divisor; \<^verbatim>\<open>vmin\<close> is then not used, because
  the loop of line 125 does not run.
\<close>

definition uniform_bins ::
  "real \<Rightarrow> real \<Rightarrow> real \<Rightarrow> int \<Rightarrow> real list \<Rightarrow> real list \<Rightarrow> real list \<Rightarrow> fault + bins" where
  "uniform_bins local_min local_max vh_box max_vbin vh_mins vh_maxs vh_peaks =
     (let span = f32 (local_max - local_min);
          npeaks = (if vh_box = 0 then int_min else c_int (c_ceil (f64 (span / vh_box))));
          vmin = f32 (f32 (f32 (span / f32 (of_int npeaks)) + local_min) - vh_box)
      in if npeaks > max_vbin then Inl Suggested_Width_Too_Many
         else thn (uniform_fill vmin vh_box npeaks 0 vh_mins vh_maxs vh_peaks) (\<lambda>(a, b, c).
                Inr \<lparr>count = npeaks, mins = a, maxs = b, peaks = c\<rparr>))"

subsection \<open>Seeding the Gaussians (lines 151-187)\<close>

text \<open>
  \<^verbatim>\<open>argmax\<close> is \<^verbatim>\<open>calloc\<close>'ed, \<^verbatim>\<open>valmax\<close> is \<^verbatim>\<open>malloc\<close>'ed: a cell of \<^verbatim>\<open>valmax\<close> holds
  \<open>None\<close> until it is written.
\<close>

function collect_maxima ::
  "int \<Rightarrow> int \<Rightarrow> int list \<Rightarrow> int list \<Rightarrow> int \<Rightarrow> int \<Rightarrow> int list \<Rightarrow> int option list
     \<Rightarrow> fault + (int list \<times> int option list)" where
  "collect_maxima nbin nmax ismax hist_bins i j argmax valmax =
     (if i < nbin \<and> j < nmax then
        thn (rd 156 ismax i) (\<lambda>flag.
          if flag = 1 then
            thn (wr 158 argmax j i) (\<lambda>argmax'.
            thn (rd 159 hist_bins i) (\<lambda>c.
            thn (wr 159 valmax j (Some c)) (\<lambda>valmax'.
              collect_maxima nbin nmax ismax hist_bins (i + 1) (j + 1) argmax' valmax')))
          else collect_maxima nbin nmax ismax hist_bins (i + 1) j argmax valmax)
      else Inr (argmax, valmax))"
  by pat_completeness auto
termination
  by (relation "measure (\<lambda>(nbin, nmax, ismax, hist_bins, i, j, a, v). nat (nbin - i))") auto

declare collect_maxima.simps [simp del]

text \<open>Line 168.\<close>

definition hist_half_width :: "int \<Rightarrow> real list \<Rightarrow> real \<Rightarrow> fault + real" where
  "hist_half_width nbin hist_edges vh_box =
     (if nbin \<ge> 1 then
        thn (rd 168 hist_edges 1) (\<lambda>e1.
        thn (rd 168 hist_edges 0) (\<lambda>e0. Inr (f32 (f64 (f32 (e1 - e0) / 2)))))
      else Inr vh_box)"

text \<open>Lines 171-176: the bin centres \<^verbatim>\<open>private->x\<close> and the counts \<^verbatim>\<open>private->y\<close>.\<close>

function cast_hist ::
  "int \<Rightarrow> real list \<Rightarrow> int list \<Rightarrow> real \<Rightarrow> int \<Rightarrow> real list \<Rightarrow> real list
     \<Rightarrow> fault + (real list \<times> real list)" where
  "cast_hist nbin hist_edges hist_bins hist_width i x y =
     (if i < nbin then
        thn (rd 173 hist_edges i) (\<lambda>e.
        thn (wr 173 x i (f32 (e + hist_width))) (\<lambda>x'.
        thn (rd 174 hist_bins i) (\<lambda>c.
        thn (wr 174 y i (of_int c)) (\<lambda>y'.
          cast_hist nbin hist_edges hist_bins hist_width (i + 1) x' y'))))
      else Inr (x, y))"
  by pat_completeness auto
termination
  by (relation "measure (\<lambda>(nbin, e, b, w, i, x, y). nat (nbin - i))") auto

declare cast_hist.simps [simp del]

text \<open>Lines 179-187: \<^verbatim>\<open>params[0]\<close> is written by the caller.\<close>

function set_params ::
  "int \<Rightarrow> int option list \<Rightarrow> int list \<Rightarrow> real list \<Rightarrow> real \<Rightarrow> int \<Rightarrow> real list
     \<Rightarrow> fault + real list" where
  "set_params nmax valmax argmax x vh_box j params =
     (if j < nmax then
        thn (rd 184 valmax j) (\<lambda>v.
          case v of
            None \<Rightarrow> Inl (Uninitialized_Read 184)
          | Some c \<Rightarrow>
              thn (wr 184 params (1 + j * 3) (of_int c)) (\<lambda>p1.
              thn (rd 185 argmax j) (\<lambda>a.
              thn (rd 185 x a) (\<lambda>xa.
              thn (wr 185 p1 (2 + j * 3) xa) (\<lambda>p2.
              thn (wr 186 p2 (3 + j * 3) (f64 (0.5 * vh_box))) (\<lambda>p3.
                set_params nmax valmax argmax x vh_box (j + 1) p3))))))
      else Inr params)"
  by pat_completeness auto
termination
  by (relation "measure (\<lambda>(nmax, v, a, x, b, j, p). nat (nmax - j))") auto

declare set_params.simps [simp del]

subsection \<open>Accepting the fitted components (lines 194-232)\<close>

definition clamp_low :: "real \<Rightarrow> real \<Rightarrow> real" where
  "clamp_low vh_min v = (if v < vh_min then vh_min else v)"

definition clamp_high :: "real \<Rightarrow> real \<Rightarrow> real" where
  "clamp_high vh_max v = (if v > vh_max then vh_max else v)"

text \<open>
  The test of line 216.  \<open>centre\<close> and \<open>sigma\<close> are \<^verbatim>\<open>params[2 + j * 3]\<close> and
  \<^verbatim>\<open>params[3 + j * 3]\<close> after the fit; \<open>xseed\<close> is \<^verbatim>\<open>private->x[argmax[j]]\<close>, the centre
  of the histogram bin that seeded component \<open>j\<close>.
\<close>

definition accepted :: "real \<Rightarrow> real \<Rightarrow> real \<Rightarrow> real \<Rightarrow> real \<Rightarrow> bool" where
  "accepted vh_min vh_max centre sigma xseed =
     (let vlow = clamp_low vh_min (centre - 2.0 * sigma);
          vhigh = clamp_high vh_max (centre + 2.0 * sigma)
      in xseed \<ge> vlow \<and> xseed \<le> vhigh)"

function accept_fits ::
  "int \<Rightarrow> int \<Rightarrow> real \<Rightarrow> real \<Rightarrow> real list \<Rightarrow> int list \<Rightarrow> real list \<Rightarrow> int \<Rightarrow> bins \<Rightarrow> fault + bins" where
  "accept_fits nmax max_vbin vh_min vh_max params argmax x j b =
     (if j < nmax then
        thn (rd 199 params (2 + j * 3)) (\<lambda>centre.
        thn (rd 199 params (3 + j * 3)) (\<lambda>sigma.
        thn (rd 216 argmax j) (\<lambda>a.
        thn (rd 216 x a) (\<lambda>xseed.
          if accepted vh_min vh_max centre sigma xseed then
            if count b \<ge> max_vbin then Inl Fits_Too_Many
            else
              thn (wr 227 (mins b) (count b) (clamp_low vh_min (centre - 3.0 * sigma))) (\<lambda>m.
              thn (wr 228 (maxs b) (count b) (clamp_high vh_max (centre + 3.0 * sigma))) (\<lambda>M.
              thn (rd 229 params 1) (\<lambda>amp.
              thn (wr 229 (peaks b) (count b) amp) (\<lambda>p.
                accept_fits nmax max_vbin vh_min vh_max params argmax x (j + 1)
                  \<lparr>count = count b + 1, mins = m, maxs = M, peaks = p\<rparr>))))
          else accept_fits nmax max_vbin vh_min vh_max params argmax x (j + 1) b))))
      else Inr b)"
  by pat_completeness auto
termination
  by (relation "measure (\<lambda>(nmax, mv, lo, hi, p, a, x, j, b). nat (nmax - j))") auto

declare accept_fits.simps [simp del]

subsection \<open>No accepted component: the suggested width again (lines 241-262)\<close>

text \<open>The loop of line 254; the count returned is the final value of \<^verbatim>\<open>i\<close>.\<close>

function fallback_fill ::
  "int \<Rightarrow> real \<Rightarrow> real \<Rightarrow> int \<Rightarrow> real list \<Rightarrow> real list \<Rightarrow> real list \<Rightarrow> fault + bins" where
  "fallback_fill j vh_max vh_box i vh_mins vh_maxs vh_peaks =
     (if i < j then
        thn (rd 254 vh_maxs (i - 1)) (\<lambda>prev.
          if prev < vh_max then
            thn (wr 256 vh_mins i prev) (\<lambda>a.
            (let hi = clamp_high vh_max (f32 (prev + vh_box))
             in thn (wr 257 vh_maxs i hi) (\<lambda>b.
                thn (wr 259 vh_peaks i (f32 (f64 (f64 (0.5 * f32 (hi - prev)) + prev)))) (\<lambda>c.
                  fallback_fill j vh_max vh_box (i + 1) a b c))))
          else Inr \<lparr>count = i, mins = vh_mins, maxs = vh_maxs, peaks = vh_peaks\<rparr>)
      else Inr \<lparr>count = i, mins = vh_mins, maxs = vh_maxs, peaks = vh_peaks\<rparr>)"
  by pat_completeness auto
termination
  by (relation "measure (\<lambda>(j, vh_max, vh_box, i, a, b, c). nat (j - i))") auto

declare fallback_fill.simps [simp del]

text \<open>
  Line 251 indexes the arrays with \<^verbatim>\<open>i\<close>, which still holds \<open>nbin\<close>, its value at
  the end of the loop of line 171.  When \<open>j = 0\<close> the quotient of line 246 has a zero
  divisor and its value is stored.
\<close>

definition fallback_bins ::
  "int \<Rightarrow> real \<Rightarrow> real \<Rightarrow> real \<Rightarrow> real \<Rightarrow> real \<Rightarrow> real list \<Rightarrow> real list \<Rightarrow> real list
     \<Rightarrow> fault + bins" where
  "fallback_bins nbin local_min local_max vh_min vh_max vh_box vh_mins vh_maxs vh_peaks =
     (let span = f32 (local_max - local_min);
          j = (if vh_box = 0 then int_min else c_int (c_ceil (f32 (span / vh_box))))
      in if j = 0 then Inl (Non_Finite 246)
         else
           (let lo = clamp_low vh_min
                       (f32 (f32 (f32 (span / f32 (of_int j)) + local_min) - vh_box));
                hi = clamp_high vh_max (f32 (lo + vh_box))
            in thn (wr 246 vh_mins 0 lo) (\<lambda>a.
               thn (wr 249 vh_maxs 0 hi) (\<lambda>b.
               thn (rd 251 b nbin) (\<lambda>hn.
               thn (rd 251 a nbin) (\<lambda>ln.
               thn (wr 251 vh_peaks nbin (f32 (f64 (f64 (0.5 * f32 (hn - ln)) + ln)))) (\<lambda>c.
                 fallback_fill j vh_max vh_box 1 a b c)))))))"

subsection \<open>\<^verbatim>\<open>select_alt_groups\<close> (lines 44-290)\<close>

text \<open>The branch of line 132: fit, accept, then fall back or reconcile.\<close>

definition fit_bins ::
  "collab \<Rightarrow> int \<Rightarrow> int \<Rightarrow> int list \<Rightarrow> int list \<Rightarrow> real list \<Rightarrow> real \<Rightarrow> real \<Rightarrow> real \<Rightarrow> real
     \<Rightarrow> real \<Rightarrow> int \<Rightarrow> real list \<Rightarrow> real list \<Rightarrow> real list \<Rightarrow> (fault + bins) option" where
  "fit_bins K nbin nmax ismax hist_bins hist_edges local_min local_max vh_min vh_max vh_box
       max_vbin vh_mins vh_maxs vh_peaks =
     (case
        thn (collect_maxima nbin nmax ismax hist_bins 0 0
               (replicate (nat nmax) 0) (replicate (nat nmax) None)) (\<lambda>(argmax, valmax).
        thn (hist_half_width nbin hist_edges vh_box) (\<lambda>hist_width.
        thn (cast_hist nbin hist_edges hist_bins hist_width 0
               (replicate (nat nbin) 0) (replicate (nat nbin) 0)) (\<lambda>(x, y).
        thn (wr 180 (replicate (nat (nmax * 3 + 1)) 0) 0 (of_int nmax)) (\<lambda>params0.
        thn (set_params nmax valmax argmax x vh_box 0 params0) (\<lambda>params.
          (let (status, params') = mpfit K nbin 3 params x y;
               b0 = \<lparr>count = 0, mins = vh_mins, maxs = vh_maxs, peaks = vh_peaks\<rparr>
           in if status > 1
              then accept_fits nmax max_vbin vh_min vh_max params' argmax x 0 b0
              else Inr b0))))))
      of
        Inl e \<Rightarrow> Some (Inl e)
      | Inr b \<Rightarrow>
          if count b = 0
          then Some (fallback_bins nbin local_min local_max vh_min vh_max vh_box
                       (mins b) (maxs b) (peaks b))
          else sort_expand_boundaries (count b) max_vbin local_min local_max vh_min vh_max
                 vh_box (mins b) (maxs b) (peaks b))"

text \<open>
  \<open>vh_mins\<close> and \<open>vh_maxs\<close> are the caller's output arrays as they are at the call;
  \<^verbatim>\<open>vh_peaks\<close> is local (\<^verbatim>\<open>calloc(max_vbin)\<close>) and freed before the return, the field
  \<open>peaks\<close> of the result is its last content.
\<close>

definition select_alt_groups ::
  "collab \<Rightarrow> int \<Rightarrow> real list \<Rightarrow> real \<Rightarrow> real \<Rightarrow> real \<Rightarrow> int \<Rightarrow> int \<Rightarrow> real list \<Rightarrow> real list
     \<Rightarrow> (fault + bins) option" where
  "select_alt_groups K num vh vh_min vh_max vh_box min_pnts max_vbin vh_mins vh_maxs =
     (let nbin = hist_bin_count vh_min vh_max vh_box
      in if nbin \<le> 0 then Some (Inl Range_Too_Small)
         else
           (let (hist_bins, hist_edges) = histogram K num vh nbin vh_min vh_max;
                (nmax0, ismax0) = int_argrelmax K nbin hist_bins 2 1;
                i = int_argabsmax K nbin hist_bins
            in case add_absmax hist_bins ismax0 nmax0 i min_pnts of
                 Inl e \<Rightarrow> Some (Inl e)
               | Inr (ismax, nmax) \<Rightarrow>
                   (let local_min = float_absmin K num vh;
                        local_max = float_absmax K num vh;
                        vh_peaks = replicate (nat max_vbin) 0
                    in if nmax = 0
                       then Some (uniform_bins local_min local_max vh_box max_vbin
                                    vh_mins vh_maxs vh_peaks)
                       else fit_bins K nbin nmax ismax hist_bins hist_edges local_min local_max
                              vh_min vh_max vh_box max_vbin vh_mins vh_maxs vh_peaks)))"

subsection \<open>Statistics collaborators, from their contracts\<close>

text \<open>
  Modelled from the spec: \<^verbatim>\<open>histogram\<close> is defined elsewhere in the toolkit.  The spec
  gives equal-width bins spanning \<open>[lower, upper]\<close>, a count and a left edge for each
  bin, values outside the range being excluded.
\<close>

definition histogram_spec :: "int \<Rightarrow> real list \<Rightarrow> int \<Rightarrow> real \<Rightarrow> real \<Rightarrow> int list \<times> real list" where
  "histogram_spec num vh nbin lower upper =
     (let w = (upper - lower) / of_int nbin;
          vals = take (nat num) vh
      in (map (\<lambda>k. int (length (filter (\<lambda>v. lower + of_nat k * w \<le> v \<and> v < lower + of_nat (Suc k) * w) vals)))
            [0 ..< nat nbin],
          map (\<lambda>k. lower + of_nat k * w) [0 ..< nat nbin]))"

text \<open>
  Modelled from the spec: \<^verbatim>\<open>float_absmin\<close> and \<^verbatim>\<open>float_absmax\<close> are defined elsewhere
  in the toolkit.  The spec gives the minimum and the maximum over the raw sample set.
\<close>

definition float_absmin_spec :: "int \<Rightarrow> real list \<Rightarrow> real" where
  "float_absmin_spec num vh = (case take (nat num) vh of [] \<Rightarrow> 0 | v # vs \<Rightarrow> fold min vs v)"

definition float_absmax_spec :: "int \<Rightarrow> real list \<Rightarrow> real" where
  "float_absmax_spec num vh = (case take (nat num) vh of [] \<Rightarrow> 0 | v # vs \<Rightarrow> fold max vs v)"

text \<open>
  Modelled from the spec: \<^verbatim>\<open>int_argabsmax\<close> is defined elsewhere in the toolkit.  The
  spec gives the index of the single largest count, the first occurrence on ties.
\<close>

definition int_argabsmax_spec :: "int \<Rightarrow> int list \<Rightarrow> int" where
  "int_argabsmax_spec nbin counts =
     int (fst (fold (\<lambda>k (best, c). if counts ! k > c then (k, counts ! k) else (best, c))
                 [1 ..< min (nat nbin) (length counts)] (0, counts ! 0)))"

text \<open>
  A collaborator record for one call: the statistics above, together with what
  \<^verbatim>\<open>int_argrelmax\<close> and \<^verbatim>\<open>mpfit\<close> hand back at that call.
\<close>

definition stat_collab :: "int \<times> int list \<Rightarrow> int \<times> real list \<Rightarrow> collab" where
  "stat_collab relmax fit =
     \<lparr>histogram = histogram_spec,
      int_argrelmax = (\<lambda>nbin counts order clip. relmax),
      int_argabsmax = int_argabsmax_spec,
      float_absmin = float_absmin_spec,
      float_absmax = float_absmax_spec,
      mpfit = (\<lambda>nbin npar params x y. fit)\<rparr>"

subsection \<open>Properties read off the result\<close>


text \<open>
  \<open>non_overlapping b\<close>: each returned interval ends at or before the start of the next.
\<close>

definition non_overlapping :: "bins \<Rightarrow> bool" where
  "non_overlapping b = list_all (\<lambda>k. maxs b ! k \<le> mins b ! Suc k) [0 ..< nat (count b) - 1]"


text \<open>The same property of the bins accepted so far by the reconciler.\<close>

definition chained :: "merge_state \<Rightarrow> bool" where
  "chained st =
     (\<forall>k. 0 < k \<and> k < inew st \<longrightarrow> new_mins st ! nat k \<le> new_maxs st ! nat (k - 1))"



text \<open>The order-independence contract of the statistics collaborators.\<close>

definition order_independent :: "collab \<Rightarrow> bool" where
  "order_independent K =
     (\<forall>vh vh' nbin lower upper. mset vh = mset vh' \<longrightarrow>
        histogram K (int (length vh)) vh nbin lower upper
          = histogram K (int (length vh')) vh' nbin lower upper
        \<and> float_absmin K (int (length vh)) vh = float_absmin K (int (length vh')) vh'
        \<and> float_absmax K (int (length vh)) vh = float_absmax K (int (length vh')) vh')"

section \<open>Evaluation\<close>

text \<open>
  Rounding a numeral: the equations of \<open>fl\<close> and of the two searches, instantiated to the
  forms a rational constant takes, so that they do not unfold on a variable.
\<close>

lemma fl_zero: "fl p emax 0 = 0"
  by (simp add: fl_def)

lemmas fl_numeral =
  fl_def [of _ _ "numeral n"] fl_def [of _ _ "- numeral n"]
  fl_def [of _ _ "numeral n / numeral m"] fl_def [of _ _ "- (numeral n / numeral m)"]
  fl_def [of _ _ "1 / numeral m"] fl_def [of _ _ "- (1 / numeral m)"]
  fl_def [of _ _ 1] fl_def [of _ _ "- 1"]
  for n m

lemmas ilog_numeral =
  ilog_up.simps [of _ _ "numeral n"] ilog_up.simps [of _ _ "numeral n / numeral m"]
  ilog_up.simps [of _ _ 1]
  ilog_down.simps [of _ _ "numeral n / numeral m"] ilog_down.simps [of _ _ "1 / numeral m"]
  for n m

lemmas float_simps = f32_def f64_def fl_zero fl_numeral ilog_numeral round_even_def

lemmas array_simps = thn_def rd_def wr_def int_min_def c_int_def quot_int_def c_floor_def
  c_ceil_def push_def copy_out_def Let_def float_simps

lemmas reconciler_simps = lower_fill.simps collapse.simps bridge_fill.simps upper_fill.simps
  lower_range_def resolve_overlap_def bridge_gap_def add_candidate_def
  merge_candidate_def upper_range_def finish_def init_state_def sort_expand_boundaries_def
  smart_argsort_float_def

lemma rd_Inr: "rd l xs i = Inr v \<longleftrightarrow> 0 \<le> i \<and> i < int (length xs) \<and> v = xs ! nat i"
  by (auto simp: rd_def)

lemma wr_Inr: "wr l xs i v = Inr ys \<longleftrightarrow> 0 \<le> i \<and> i < int (length xs) \<and> ys = xs[nat i := v]"
  by (auto simp: wr_def)

lemma thn_Inr: "thn r f = Inr y \<longleftrightarrow> (\<exists>v. r = Inr v \<and> f v = Inr y)"
  by (cases r) (simp_all add: thn_def)

lemmas select_simps = uniform_fill.simps collect_maxima.simps cast_hist.simps set_params.simps
  accept_fits.simps fallback_fill.simps hist_bin_count_def add_absmax_def uniform_bins_def
  hist_half_width_def
  clamp_low_def clamp_high_def accepted_def fallback_bins_def fit_bins_def select_alt_groups_def
  stat_collab_def histogram_spec_def float_absmin_spec_def float_absmax_spec_def
  int_argabsmax_spec_def

lemma replicate_numeral: "replicate (numeral k) x = x # replicate (pred_numeral k) x"
  by (simp add: numeral_eq_Suc)

lemma list_update_Cons_numeral: "(x # xs)[numeral k := v] = x # xs[pred_numeral k := v]"
  by (simp add: numeral_eq_Suc)

lemmas list_simps = replicate_numeral list_update_Cons_numeral upt_rec

section \<open>The reconciler on concrete candidate lists\<close>

text \<open>
  Claim C2 (sorted, non-overlapping output of \<^verbatim>\<open>sort_expand_boundaries\<close>).
  One candidate \<open>[161, 200]\<close> with peak 170, observed heights from 100 to 200, nominal
  width 30.  The lower-range filler inserts two bins whose bounds are \<^verbatim>\<open>floor(hmin)\<close> and
  \<^verbatim>\<open>ceil(hmin + vspan)\<close> with \<open>vspan = 30.5\<close>: the first ends at 131, the second starts
  at 130.  The call returns three bins and the first two overlap.  \<^verbatim>\<open>select_alt_groups\<close>
  returns the same three intervals for the heights 100, 180, 180, 180, 200 when the fit
  returns one component of centre 180.5 and width 6.5.
\<close>

theorem lower_filler_overlap:
  "sort_expand_boundaries 1 4 100 200 50 250 30 [161, 0, 0, 0] [200, 0, 0, 0] [170, 0, 0, 0]
     = Some (Inr \<lparr>count = 3, mins = [100, 130, 161, 0], maxs = [131, 161, 200, 0],
                   peaks = [115.25, 145.75, 170, 0]\<rparr>)
   \<and> \<not> non_overlapping \<lparr>count = 3, mins = [100, 130, 161, 0], maxs = [131, 161, 200, 0],
                            peaks = [115.25, 145.75, 170, 0]\<rparr>
   \<and> select_alt_groups
         (stat_collab (1, [0, 0, 0, 0, 0, 0, 1, 0, 0, 0]) (2, [1, 5, 180.5, 6.5]))
         5 [100, 180, 180, 180, 200] 50 250 30 2 4 (replicate 4 0) (replicate 4 0)
     = Some (Inr \<lparr>count = 3, mins = [100, 130, 161, 0], maxs = [131, 161, 200, 0],
                   peaks = [115.25, 145.75, 180.5, 0]\<rparr>)
   \<and> \<not> non_overlapping \<lparr>count = 3, mins = [100, 130, 161, 0], maxs = [131, 161, 200, 0],
                            peaks = [115.25, 145.75, 180.5, 0]\<rparr>"
  by (simp add: select_simps reconciler_simps array_simps merge_loop.simps non_overlapping_def
        list_simps)

text \<open>
  Claim C3 (the capacity \<^verbatim>\<open>max_vbin\<close> is enforced on every insertion).
  One candidate \<open>[100, 110]\<close>, observed heights from 100 to 200, nominal width 10 and
  \<open>max_vbin = 3\<close>.  The merge pass leaves one bin, the upper-range filler then inserts
  bins with no capacity test: its third insertion writes \<^verbatim>\<open>new_mins[3]\<close>, outside the
  three allocated cells, and the capacity error is never raised.  \<^verbatim>\<open>select_alt_groups\<close>
  ends the same way for the heights 100, 100, 100, 200 when the fit returns one
  component of centre 104 and width 2.
\<close>

theorem upper_filler_overruns:
  "sort_expand_boundaries 1 3 100 200 50 250 10 [100, 0, 0] [110, 0, 0] [5, 0, 0]
     = Some (Inl (Out_Of_Bounds 493))
   \<and> select_alt_groups (stat_collab (1, [0, 0, 1, 0, 0, 0, 0, 0, 0, 0]) (2, [1, 5, 104, 2]))
         4 [100, 100, 100, 200] 50 250 10 2 3 (replicate 3 0) (replicate 3 0)
     = Some (Inl (Out_Of_Bounds 493))"
  by (simp add: select_simps reconciler_simps array_simps merge_loop.simps list_simps)

text \<open>
  The bridging loop of the merge pass inserts without a capacity test as well: the test
  of line 463 comes after the loop.
\<close>

lemma bridge_overruns:
  "sort_expand_boundaries 2 3 100 200 50 250 10 [100, 150, 0] [110, 160, 0] [105, 155, 0]
     = Some (Inl (Out_Of_Bounds 429))"
  by (simp add: reconciler_simps array_simps merge_loop.simps list_simps)

text \<open>
  Claim C4 (which side of an overlap wins), as stated: candidate 1 \<open>[110, 160]\<close> overlaps
  the accepted bin \<open>[100, 150]\<close> of candidate 0 and is the less important of the two.
  It is not dropped and the accepted bin is not clamped to 110: the candidate is
  appended, cut to start at 150.
\<close>

theorem overlap_priority_counterexample:
  "sort_expand_boundaries 2 4 100 160 50 250 30 [100, 110, 0, 0] [150, 160, 0, 0] [120, 130, 0, 0]
     = Some (Inr \<lparr>count = 2, mins = [100, 150, 0, 0], maxs = [150, 160, 0, 0],
                   peaks = [120, 155, 0, 0]\<rparr>)
   \<and> maxs \<lparr>count = 2, mins = [100, 150, 0, 0], maxs = [150, 160, 0, 0],
            peaks = [120, 155, 0, 0]\<rparr> ! 0 \<noteq> 110
   \<and> count \<lparr>count = 2, mins = [100, 150, 0, 0], maxs = [150, 160, 0, 0],
             peaks = [120, 155, 0, 0]\<rparr> \<noteq> 1"
  by (simp add: reconciler_simps array_simps merge_loop.simps list_simps)

text \<open>
  Claim C10 (no read of \<^verbatim>\<open>new_mins[inew - 1]\<close> with \<open>inew = 0\<close>).
  Three candidates whose lower bound is the global lower limit 50.  The second is cut
  and appended as a filler, the third collapses both accepted bins; the loop condition
  of line 401 then reads \<^verbatim>\<open>new_mins[-1]\<close> before it tests \<^verbatim>\<open>inew > 0\<close>.
  \<^verbatim>\<open>select_alt_groups\<close> passes these candidates when the fit returns three wide components
  (centres 100, 150, 200 and widths 20, 40, 60): each three-sigma window is clamped to the
  lower limit 50.
\<close>

theorem collapse_reads_below_array:
  "sort_expand_boundaries 3 10 55 230 50 250 30
       [50, 50, 50, 0, 0, 0, 0, 0, 0, 0] [160, 250, 250, 0, 0, 0, 0, 0, 0, 0]
       [5, 5, 5, 0, 0, 0, 0, 0, 0, 0]
     = Some (Inl (Out_Of_Bounds 401))
   \<and> select_alt_groups
         (stat_collab (3, [1, 0, 0, 1, 0, 0, 1, 0, 0, 0])
                      (2, [3, 5, 100, 20, 5, 150, 40, 5, 200, 60]))
         9 [55, 60, 65, 115, 120, 125, 175, 180, 185] 50 250 30 2 10
         (replicate 10 0) (replicate 10 0)
     = Some (Inl (Out_Of_Bounds 401))"
  by (simp add: select_simps reconciler_simps array_simps merge_loop.simps list_simps)

text \<open>
  The guard of line 471 reads \<^verbatim>\<open>new_maxs[-1]\<close> when the only candidate has no width and
  is dropped.
\<close>

lemma upper_guard_reads_below_array:
  "sort_expand_boundaries 1 10 100 200 50 250 30 [100, 0] [100, 0] [5, 0]
     = Some (Inl (Out_Of_Bounds 471))"
  by (simp add: reconciler_simps array_simps merge_loop.simps list_simps)

subsection \<open>A candidate list on which the merge pass does not return\<close>

text \<open>
  Four candidates with lower bounds 50, 58, 120, 160 and peak value 1000, nominal width
  30.  Candidate 3 finds a gap of 40 after the last accepted bin and the bridging loop
  inserts one filler; that loop runs on \<^verbatim>\<open>i\<close>, so the merge pass continues at candidate
  2.  Candidate 2 collapses the filler, candidate 3 finds the same gap again.
\<close>

lemma cycle_step_a:
  "merge_candidate 4 10 30 [50, 58, 120, 160, 0, 0, 0, 0, 0, 0]
       [100, 202, 216, 250, 0, 0, 0, 0, 0, 0] [1000, 1000, 1000, 1000, 0, 0, 0, 0, 0, 0]
       [0, 1, 2, 3]
       \<lparr>idx = 3, inew = 2, new_mins = [50, 100, 120, 0, 0, 0, 0, 0, 0, 0],
        new_maxs = [100, 120, 160, 0, 0, 0, 0, 0, 0, 0],
        new_peaks = [1000, 151, 140, 0, 0, 0, 0, 0, 0, 0],
        priority = [0, 5, 6, 0, 0, 0, 0, 0, 0, 0]\<rparr>
     = Inr \<lparr>idx = 2, inew = 3, new_mins = [50, 100, 120, 0, 0, 0, 0, 0, 0, 0],
        new_maxs = [100, 120, 160, 0, 0, 0, 0, 0, 0, 0],
        new_peaks = [1000, 151, 140, 0, 0, 0, 0, 0, 0, 0],
        priority = [0, 5, 6, 0, 0, 0, 0, 0, 0, 0]\<rparr>"
  by (simp add: reconciler_simps array_simps list_simps)

lemma cycle_step_b:
  "merge_candidate 4 10 30 [50, 58, 120, 160, 0, 0, 0, 0, 0, 0]
       [100, 202, 216, 250, 0, 0, 0, 0, 0, 0] [1000, 1000, 1000, 1000, 0, 0, 0, 0, 0, 0]
       [0, 1, 2, 3]
       \<lparr>idx = 2, inew = 3, new_mins = [50, 100, 120, 0, 0, 0, 0, 0, 0, 0],
        new_maxs = [100, 120, 160, 0, 0, 0, 0, 0, 0, 0],
        new_peaks = [1000, 151, 140, 0, 0, 0, 0, 0, 0, 0],
        priority = [0, 5, 6, 0, 0, 0, 0, 0, 0, 0]\<rparr>
     = Inr \<lparr>idx = 3, inew = 2, new_mins = [50, 100, 120, 0, 0, 0, 0, 0, 0, 0],
        new_maxs = [100, 120, 160, 0, 0, 0, 0, 0, 0, 0],
        new_peaks = [1000, 151, 140, 0, 0, 0, 0, 0, 0, 0],
        priority = [0, 5, 6, 0, 0, 0, 0, 0, 0, 0]\<rparr>"
  by (simp add: reconciler_simps array_simps list_simps)

lemma merge_loop_avoids_cycle:
  assumes "merge_loop num max_vbin vh_box vh_mins vh_maxs vh_peaks sortargs st = Some y"
  shows "\<not> (num = 4 \<and> max_vbin = 10 \<and> vh_box = 30
            \<and> vh_mins = [50, 58, 120, 160, 0, 0, 0, 0, 0, 0]
            \<and> vh_maxs = [100, 202, 216, 250, 0, 0, 0, 0, 0, 0]
            \<and> vh_peaks = [1000, 1000, 1000, 1000, 0, 0, 0, 0, 0, 0]
            \<and> sortargs = [0, 1, 2, 3]
            \<and> new_mins st = [50, 100, 120, 0, 0, 0, 0, 0, 0, 0]
            \<and> new_maxs st = [100, 120, 160, 0, 0, 0, 0, 0, 0, 0]
            \<and> new_peaks st = [1000, 151, 140, 0, 0, 0, 0, 0, 0, 0]
            \<and> priority st = [0, 5, 6, 0, 0, 0, 0, 0, 0, 0]
            \<and> ((idx st = 3 \<and> inew st = 2) \<or> (idx st = 2 \<and> inew st = 3)))"
proof (rule merge_loop.raw_induct
    [where P = "\<lambda>num max_vbin vh_box vh_mins vh_maxs vh_peaks sortargs st y.
          \<not> (num = 4 \<and> max_vbin = 10 \<and> vh_box = 30
            \<and> vh_mins = [50, 58, 120, 160, 0, 0, 0, 0, 0, 0]
            \<and> vh_maxs = [100, 202, 216, 250, 0, 0, 0, 0, 0, 0]
            \<and> vh_peaks = [1000, 1000, 1000, 1000, 0, 0, 0, 0, 0, 0]
            \<and> sortargs = [0, 1, 2, 3]
            \<and> new_mins st = [50, 100, 120, 0, 0, 0, 0, 0, 0, 0]
            \<and> new_maxs st = [100, 120, 160, 0, 0, 0, 0, 0, 0, 0]
            \<and> new_peaks st = [1000, 151, 140, 0, 0, 0, 0, 0, 0, 0]
            \<and> priority st = [0, 5, 6, 0, 0, 0, 0, 0, 0, 0]
            \<and> ((idx st = 3 \<and> inew st = 2) \<or> (idx st = 2 \<and> inew st = 3)))",
     OF _ assms])
  fix f :: "int \<Rightarrow> int \<Rightarrow> real \<Rightarrow> real list \<Rightarrow> real list \<Rightarrow> real list \<Rightarrow> int list \<Rightarrow> merge_state
     \<Rightarrow> (fault + merge_state) option"
  fix num max_vbin vh_box vh_mins vh_maxs vh_peaks sortargs st y
  let ?A = "\<lparr>idx = 3, inew = 2, new_mins = [50, 100, 120, 0, 0, 0, 0, 0, 0, 0],
        new_maxs = [100, 120, 160, 0, 0, 0, 0, 0, 0, 0],
        new_peaks = [1000, 151, 140, 0, 0, 0, 0, 0, 0, 0],
        priority = [0, 5, 6, 0, 0, 0, 0, 0, 0, 0]\<rparr> :: merge_state"
  let ?B = "\<lparr>idx = 2, inew = 3, new_mins = [50, 100, 120, 0, 0, 0, 0, 0, 0, 0],
        new_maxs = [100, 120, 160, 0, 0, 0, 0, 0, 0, 0],
        new_peaks = [1000, 151, 140, 0, 0, 0, 0, 0, 0, 0],
        priority = [0, 5, 6, 0, 0, 0, 0, 0, 0, 0]\<rparr> :: merge_state"
  let ?cyc = "\<lambda>num max_vbin vh_box vh_mins vh_maxs vh_peaks sortargs st.
           (num = 4 \<and> max_vbin = 10 \<and> vh_box = 30
            \<and> vh_mins = [50, 58, 120, 160, 0, 0, 0, 0, 0, 0]
            \<and> vh_maxs = [100, 202, 216, 250, 0, 0, 0, 0, 0, 0]
            \<and> vh_peaks = [1000, 1000, 1000, 1000, 0, 0, 0, 0, 0, 0]
            \<and> sortargs = [0, 1, 2, 3]
            \<and> new_mins st = [50, 100, 120, 0, 0, 0, 0, 0, 0, 0]
            \<and> new_maxs st = [100, 120, 160, 0, 0, 0, 0, 0, 0, 0]
            \<and> new_peaks st = [1000, 151, 140, 0, 0, 0, 0, 0, 0, 0]
            \<and> priority st = [0, 5, 6, 0, 0, 0, 0, 0, 0, 0]
            \<and> ((idx st = 3 \<and> inew st = 2) \<or> (idx st = 2 \<and> inew st = 3)))"
  assume IH: "\<And>num max_vbin vh_box vh_mins vh_maxs vh_peaks sortargs st y.
      f num max_vbin vh_box vh_mins vh_maxs vh_peaks sortargs st = Some y \<Longrightarrow>
      \<not> ?cyc num max_vbin vh_box vh_mins vh_maxs vh_peaks sortargs st"
  assume body: "(if idx st < num
      then case merge_candidate num max_vbin vh_box vh_mins vh_maxs vh_peaks sortargs st of
             Inl e \<Rightarrow> Some (Inl e)
           | Inr st' \<Rightarrow> f num max_vbin vh_box vh_mins vh_maxs vh_peaks sortargs st'
      else Some (Inr st)) = Some y"
  show "\<not> ?cyc num max_vbin vh_box vh_mins vh_maxs vh_peaks sortargs st"
  proof
    assume H: "?cyc num max_vbin vh_box vh_mins vh_maxs vh_peaks sortargs st"
    then consider "st = ?A" | "st = ?B" by (cases st) auto
    then show False
    proof cases
      case 1
      with H body cycle_step_a
      have "f num max_vbin vh_box vh_mins vh_maxs vh_peaks sortargs ?B = Some y" by simp
      from IH [OF this] H show False by simp
    next
      case 2
      with H body cycle_step_b
      have "f num max_vbin vh_box vh_mins vh_maxs vh_peaks sortargs ?A = Some y" by simp
      from IH [OF this] H show False by simp
    qed
  qed
qed

lemma merge_loop_unfold:
  "idx st < num \<Longrightarrow>
   merge_candidate num max_vbin vh_box vh_mins vh_maxs vh_peaks sortargs st = Inr st' \<Longrightarrow>
   merge_loop num max_vbin vh_box vh_mins vh_maxs vh_peaks sortargs st
     = merge_loop num max_vbin vh_box vh_mins vh_maxs vh_peaks sortargs st'"
  by (subst merge_loop.simps) simp

lemma merge_loop_diverges:
  "merge_loop 4 10 30 [50, 58, 120, 160, 0, 0, 0, 0, 0, 0]
       [100, 202, 216, 250, 0, 0, 0, 0, 0, 0] [1000, 1000, 1000, 1000, 0, 0, 0, 0, 0, 0]
       [0, 1, 2, 3] ((init_state 10)\<lparr>idx := 0\<rparr>)
     = None"
proof -
  let ?ml = "merge_loop 4 10 30 [50, 58, 120, 160, 0, 0, 0, 0, 0, 0]
          [100, 202, 216, 250, 0, 0, 0, 0, 0, 0] [1000, 1000, 1000, 1000, 0, 0, 0, 0, 0, 0]
          [0, 1, 2, 3]"
  let ?mc = "merge_candidate 4 10 30 [50, 58, 120, 160, 0, 0, 0, 0, 0, 0]
          [100, 202, 216, 250, 0, 0, 0, 0, 0, 0] [1000, 1000, 1000, 1000, 0, 0, 0, 0, 0, 0]
          [0, 1, 2, 3]"
  let ?s0 = "(init_state 10)\<lparr>idx := 0\<rparr>"
  let ?s1 = "\<lparr>idx = 1, inew = 1, new_mins = [50, 0, 0, 0, 0, 0, 0, 0, 0, 0],
        new_maxs = [100, 0, 0, 0, 0, 0, 0, 0, 0, 0],
        new_peaks = [1000, 0, 0, 0, 0, 0, 0, 0, 0, 0],
        priority = [0, 0, 0, 0, 0, 0, 0, 0, 0, 0]\<rparr> :: merge_state"
  let ?s2 = "\<lparr>idx = 2, inew = 2, new_mins = [50, 100, 0, 0, 0, 0, 0, 0, 0, 0],
        new_maxs = [100, 202, 0, 0, 0, 0, 0, 0, 0, 0],
        new_peaks = [1000, 151, 0, 0, 0, 0, 0, 0, 0, 0],
        priority = [0, 5, 0, 0, 0, 0, 0, 0, 0, 0]\<rparr> :: merge_state"
  let ?s3 = "\<lparr>idx = 3, inew = 2, new_mins = [50, 100, 0, 0, 0, 0, 0, 0, 0, 0],
        new_maxs = [100, 120, 0, 0, 0, 0, 0, 0, 0, 0],
        new_peaks = [1000, 151, 0, 0, 0, 0, 0, 0, 0, 0],
        priority = [0, 5, 0, 0, 0, 0, 0, 0, 0, 0]\<rparr> :: merge_state"
  let ?B = "\<lparr>idx = 2, inew = 3, new_mins = [50, 100, 120, 0, 0, 0, 0, 0, 0, 0],
        new_maxs = [100, 120, 160, 0, 0, 0, 0, 0, 0, 0],
        new_peaks = [1000, 151, 140, 0, 0, 0, 0, 0, 0, 0],
        priority = [0, 5, 6, 0, 0, 0, 0, 0, 0, 0]\<rparr> :: merge_state"
  have 1: "?mc ?s0 = Inr ?s1" by (simp add: reconciler_simps array_simps list_simps)
  have 2: "?mc ?s1 = Inr ?s2" by (simp add: reconciler_simps array_simps list_simps)
  have 3: "?mc ?s2 = Inr ?s3" by (simp add: reconciler_simps array_simps list_simps)
  have 4: "?mc ?s3 = Inr ?B" by (simp add: reconciler_simps array_simps list_simps)
  have "?ml ?s0 = ?ml ?s1" by (rule merge_loop_unfold [OF _ 1]) (simp add: init_state_def)
  also have "\<dots> = ?ml ?s2" by (rule merge_loop_unfold [OF _ 2]) simp
  also have "\<dots> = ?ml ?s3" by (rule merge_loop_unfold [OF _ 3]) simp
  also have "\<dots> = ?ml ?B" by (rule merge_loop_unfold [OF _ 4]) simp
  also have "\<dots> = None"
  proof (cases "?ml ?B")
    case (Some y)
    from merge_loop_avoids_cycle [OF this] show ?thesis by simp
  qed simp
  finally show ?thesis .
qed

lemma diverging_candidates_sorted:
  "smart_argsort_float 4 [50, 58, 120, 160, 0, 0, 0, 0, 0, 0] = [0, 1, 2, 3]"
  by (simp add: smart_argsort_float_def list_simps)

lemma diverging_candidates_lower_range:
  "lower_range 4 10 55 50 30 [50, 58, 120, 160, 0, 0, 0, 0, 0, 0] [0, 1, 2, 3] (init_state 10)
     = Inr ([50, 58, 120, 160, 0, 0, 0, 0, 0, 0], init_state 10)"
  by (simp add: lower_range_def array_simps)

text \<open>
  Claim C8 (every invocation terminates; the merge pass cannot iterate forever).
  On the four candidates above \<^verbatim>\<open>sort_expand_boundaries\<close> does not return: after four
  passes the merge loop alternates between two states.  \<^verbatim>\<open>select_alt_groups\<close> passes these
  candidates, and does not return either, when the histogram has maxima in bins 0, 3, 6, 9
  and the fit returns the amplitude 1000 and the components \<open>(70, 10)\<close>, \<open>(130, 24)\<close>,
  \<open>(168, 16)\<close>, \<open>(220, 20)\<close>.
\<close>

theorem merge_pass_diverges:
  "sort_expand_boundaries 4 10 55 245 50 250 30
       [50, 58, 120, 160, 0, 0, 0, 0, 0, 0] [100, 202, 216, 250, 0, 0, 0, 0, 0, 0]
       [1000, 1000, 1000, 1000, 0, 0, 0, 0, 0, 0]
     = None
   \<and> select_alt_groups
         (stat_collab (4, [1, 0, 0, 1, 0, 0, 1, 0, 0, 1])
                      (2, [4, 1000, 70, 10, 1000, 130, 24, 1000, 168, 16, 1000, 220, 20]))
         8 [55, 60, 120, 125, 180, 185, 240, 245] 50 250 30 2 10
         (replicate 10 0) (replicate 10 0)
     = None"
proof -
  have r: "sort_expand_boundaries 4 10 55 245 50 250 30
       [50, 58, 120, 160, 0, 0, 0, 0, 0, 0] [100, 202, 216, 250, 0, 0, 0, 0, 0, 0]
       [1000, 1000, 1000, 1000, 0, 0, 0, 0, 0, 0]
     = None"
    by (simp add: sort_expand_boundaries_def Let_def diverging_candidates_sorted
          diverging_candidates_lower_range merge_loop_diverges)
  have "select_alt_groups
       (stat_collab (4, [1, 0, 0, 1, 0, 0, 1, 0, 0, 1])
                    (2, [4, 1000, 70, 10, 1000, 130, 24, 1000, 168, 16, 1000, 220, 20]))
       8 [55, 60, 120, 125, 180, 185, 240, 245] 50 250 30 2 10
       (replicate 10 0) (replicate 10 0)
     = sort_expand_boundaries 4 10 55 245 50 250 30
         [50, 58, 120, 160, 0, 0, 0, 0, 0, 0] [100, 202, 216, 250, 0, 0, 0, 0, 0, 0]
         [1000, 1000, 1000, 1000, 0, 0, 0, 0, 0, 0]"
    by (simp add: select_simps array_simps list_simps)
  with r show ?thesis by simp
qed

section \<open>The estimator on concrete histograms\<close>

text \<open>
  Claim C5 (the bin of the global maximum joins the maxima when it is not flagged and its
  count reaches \<^verbatim>\<open>min_pnts\<close>).
  Two equal counts side by side, 7 and 7 in bins 2 and 3: no relative maximum is flagged
  (\<open>nmax = 0\<close>), the global maximum is bin 2 and \<open>min_pnts = 2\<close>.  Line 103 tests
  \<^verbatim>\<open>hist_bins[nmax]\<close>, the count 0 of bin 0, so bin 2 is not added.
\<close>

theorem add_absmax_misses_peak:
  "add_absmax [0, 0, 7, 7, 0, 0, 0, 0, 0, 0] [0, 0, 0, 0, 0, 0, 0, 0, 0, 0] 0 2 2
     = Inr ([0, 0, 0, 0, 0, 0, 0, 0, 0, 0], 0)"
  by (simp add: add_absmax_def array_simps)

text \<open>When the count of bin \<open>nmax\<close> reaches the threshold, it is bin \<open>nmax\<close> that is flagged.\<close>

lemma add_absmax_flags_other_bin:
  "add_absmax [3, 0, 7, 7, 0, 0, 0, 0, 0, 0] [0, 0, 0, 0, 0, 0, 0, 0, 0, 0] 0 2 2
     = Inr ([1, 0, 0, 0, 0, 0, 0, 0, 0, 0], 1)"
  by (simp add: add_absmax_def array_simps)



section \<open>Overlap resolution\<close>

lemma collapse_result:
  assumes "collapse hmin ms n = Inr m"
  shows "0 < m \<and> m \<le> n \<and> m \<le> int (length ms) \<and> ms ! nat (m - 1) < hmin
         \<and> (\<forall>k. m \<le> k \<and> k < n \<longrightarrow> hmin \<le> ms ! nat k)"
  using assms
proof (induction hmin ms n rule: collapse.induct)
  case (1 hmin ms n)
  from "1.prems" have rng: "0 \<le> n - 1" "n - 1 < int (length ms)"
    by (subst (asm) collapse.simps; auto simp: rd_def split: if_splits)+
  then have r: "rd 401 ms (n - 1) = Inr (ms ! nat (n - 1))" by (simp add: rd_def)
  show ?case
  proof (cases "hmin \<le> ms ! nat (n - 1)")
    case True
    with rng have c: "hmin \<le> ms ! nat (n - 1) \<and> n > 0" by simp
    with "1.prems" r have "collapse hmin ms (n - 1) = Inr m"
      by (subst (asm) collapse.simps) simp
    from "1.IH" [OF r c this]
    have ih: "0 < m" "m \<le> n - 1" "m \<le> int (length ms)" "ms ! nat (m - 1) < hmin"
      "\<And>k. m \<le> k \<Longrightarrow> k < n - 1 \<Longrightarrow> hmin \<le> ms ! nat k"
      by auto
    have "hmin \<le> ms ! nat k" if "m \<le> k" "k < n" for k
    proof (cases "k = n - 1")
      case True
      with c show ?thesis by simp
    next
      case False
      with that ih(5) [of k] show ?thesis by simp
    qed
    with ih show ?thesis by simp
  next
    case False
    with "1.prems" r have "m = n" by (subst (asm) collapse.simps) simp
    with False rng show ?thesis by simp
  qed
qed

lemma push_Inr:
  "push l st a b c p = Inr st' \<longleftrightarrow>
     0 \<le> inew st \<and> inew st < int (length (new_mins st)) \<and> inew st < int (length (new_maxs st))
     \<and> inew st < int (length (new_peaks st)) \<and> inew st < int (length (priority st))
     \<and> st' = st\<lparr>inew := inew st + 1,
                 new_mins := (new_mins st)[nat (inew st) := a],
                 new_maxs := (new_maxs st)[nat (inew st) := b],
                 new_peaks := (new_peaks st)[nat (inew st) := c],
                 priority := (priority st)[nat (inew st) := p]\<rparr>"
  by (auto simp: push_def thn_Inr wr_Inr)

text \<open>
  Claim C4, amended: in the overlap branch the strictly lower priority value wins.
  When the last accepted bin has a strictly lower priority value than the candidate's
  index, every accepted bin is kept as it is and the candidate is appended as a filler
  that starts at the last upper bound and ends at the rounded-up upper bound of the
  candidate.  Otherwise the trailing bins whose lower bound is at or above the
  candidate's lower bound are removed, the last retained bin starts below the candidate's
  lower bound and its upper bound is set to that bound, and the candidate is not
  appended.
\<close>

theorem resolve_overlap_by_priority:
  assumes "resolve_overlap num vh_maxs s hmin st = Inr st'"
  shows "if priority st ! nat (inew st - 1) < s
         then inew st' = inew st + 1
              \<and> new_mins st' ! nat (inew st) = new_maxs st ! nat (inew st - 1)
              \<and> new_maxs st' ! nat (inew st) = c_ceil (vh_maxs ! nat s)
              \<and> priority st' ! nat (inew st) = inew st + num
              \<and> (\<forall>k. 0 \<le> k \<and> k < inew st \<longrightarrow>
                    new_mins st' ! nat k = new_mins st ! nat k
                    \<and> new_maxs st' ! nat k = new_maxs st ! nat k
                    \<and> priority st' ! nat k = priority st ! nat k)
         else 0 < inew st' \<and> inew st' \<le> inew st
              \<and> new_mins st' = new_mins st
              \<and> (\<forall>k. inew st' \<le> k \<and> k < inew st \<longrightarrow> hmin \<le> new_mins st ! nat k)
              \<and> new_mins st ! nat (inew st' - 1) < hmin
              \<and> new_maxs st' ! nat (inew st' - 1) = hmin
              \<and> (\<forall>k. 0 \<le> k \<and> k < inew st' - 1 \<longrightarrow>
                    new_maxs st' ! nat k = new_maxs st ! nat k)"
proof -
  from assms obtain p where p: "rd 389 (priority st) (inew st - 1) = Inr p"
    by (auto simp: resolve_overlap_def thn_Inr)
  then have pv: "p = priority st ! nat (inew st - 1)" and pos: "0 < inew st"
    by (auto simp: rd_Inr)
  show ?thesis
  proof (cases "p < s")
    case True
    with assms p obtain lo cmax where
      lo: "rd 391 (new_maxs st) (inew st - 1) = Inr lo"
      and cm: "rd 392 vh_maxs s = Inr cmax"
      and pu: "push 391 st lo (c_ceil cmax) (f32 (f64 (lo + f64 (0.5 * f32 (c_ceil cmax - lo)))))
                 (inew st + num) = Inr st'"
      by (auto simp: resolve_overlap_def thn_Inr Let_def)
    from lo cm have v: "lo = new_maxs st ! nat (inew st - 1)" "cmax = vh_maxs ! nat s"
      by (auto simp: rd_Inr)
    from pu have rng: "inew st < int (length (new_mins st))" "inew st < int (length (new_maxs st))"
      "inew st < int (length (priority st))"
      and st': "st' = st\<lparr>inew := inew st + 1,
                 new_mins := (new_mins st)[nat (inew st) := lo],
                 new_maxs := (new_maxs st)[nat (inew st) := c_ceil cmax],
                 new_peaks := (new_peaks st)[nat (inew st) :=
                                f32 (f64 (lo + f64 (0.5 * f32 (c_ceil cmax - lo))))],
                 priority := (priority st)[nat (inew st) := inew st + num]\<rparr>"
      by (auto simp: push_Inr)
    have keep: "\<forall>k. 0 \<le> k \<and> k < inew st \<longrightarrow>
                    new_mins st' ! nat k = new_mins st ! nat k
                    \<and> new_maxs st' ! nat k = new_maxs st ! nat k
                    \<and> priority st' ! nat k = priority st ! nat k"
    proof (intro allI impI)
      fix k assume "0 \<le> k \<and> k < inew st"
      then have "nat (inew st) \<noteq> nat k" by arith
      then show "new_mins st' ! nat k = new_mins st ! nat k
                    \<and> new_maxs st' ! nat k = new_maxs st ! nat k
                    \<and> priority st' ! nat k = priority st ! nat k"
        by (simp add: st')
    qed
    from rng pos v have new: "inew st' = inew st + 1"
      "new_mins st' ! nat (inew st) = new_maxs st ! nat (inew st - 1)"
      "new_maxs st' ! nat (inew st) = c_ceil (vh_maxs ! nat s)"
      "priority st' ! nat (inew st) = inew st + num"
      by (simp_all add: st')
    from True pv have "priority st ! nat (inew st - 1) < s" by simp
    with new keep show ?thesis by simp
  next
    case False
    with assms p obtain n where n: "collapse hmin (new_mins st) (inew st) = Inr n"
      and fin: "(if n > 0
                 then thn (wr 406 (new_maxs st) (n - 1) hmin) (\<lambda>maxs.
                        Inr (st\<lparr>inew := n, new_maxs := maxs\<rparr>))
                 else Inr (st\<lparr>inew := n\<rparr>)) = Inr st'"
      by (auto simp: resolve_overlap_def thn_Inr)
    from collapse_result [OF n] have c: "0 < n" "n \<le> inew st"
      "new_mins st ! nat (n - 1) < hmin" "\<And>k. n \<le> k \<Longrightarrow> k < inew st \<Longrightarrow> hmin \<le> new_mins st ! nat k"
      by auto
    from fin c(1) have rng: "n - 1 < int (length (new_maxs st))"
      and st': "st' = st\<lparr>inew := n, new_maxs := (new_maxs st)[nat (n - 1) := hmin]\<rparr>"
      by (auto simp: thn_Inr wr_Inr)
    have n': "inew st' = n" and m': "new_mins st' = new_mins st" by (simp_all add: st')
    have keep: "\<forall>k. 0 \<le> k \<and> k < inew st' - 1 \<longrightarrow> new_maxs st' ! nat k = new_maxs st ! nat k"
    proof (intro allI impI)
      fix k assume "0 \<le> k \<and> k < inew st' - 1"
      with n' have "nat (n - 1) \<noteq> nat k" by arith
      then show "new_maxs st' ! nat k = new_maxs st ! nat k" by (simp add: st')
    qed
    from rng c(1) have last: "new_maxs st' ! nat (inew st' - 1) = hmin" by (simp add: st')
    from c have "0 < inew st'" "inew st' \<le> inew st" "new_mins st ! nat (inew st' - 1) < hmin"
      "\<forall>k. inew st' \<le> k \<and> k < inew st \<longrightarrow> hmin \<le> new_mins st ! nat k"
      by (simp_all add: n')
    moreover from False pv have "\<not> priority st ! nat (inew st - 1) < s" by simp
    ultimately show ?thesis using m' keep last by simp
  qed
qed


text \<open>
  The accepted bin \<open>[100, 150]\<close> and a candidate starting at 110: with priority 0
  against candidate 1 the candidate is cut to \<open>[150, 160]\<close>, with priority 1 against
  candidate 0 the accepted bin is cut to \<open>[100, 110]\<close>.
\<close>

theorem resolve_overlap_by_priority_witness:
  "resolve_overlap 2 [150, 160, 0, 0] 1 110
       \<lparr>idx = 1, inew = 1, new_mins = [100, 0, 0, 0], new_maxs = [150, 0, 0, 0],
        new_peaks = [120, 0, 0, 0], priority = [0, 0, 0, 0]\<rparr>
     = Inr \<lparr>idx = 1, inew = 2, new_mins = [100, 150, 0, 0], new_maxs = [150, 160, 0, 0],
            new_peaks = [120, 155, 0, 0], priority = [0, 3, 0, 0]\<rparr>
   \<and> resolve_overlap 2 [160, 150, 0, 0] 0 110
       \<lparr>idx = 1, inew = 1, new_mins = [100, 0, 0, 0], new_maxs = [150, 0, 0, 0],
        new_peaks = [120, 0, 0, 0], priority = [1, 0, 0, 0]\<rparr>
     = Inr \<lparr>idx = 1, inew = 1, new_mins = [100, 0, 0, 0], new_maxs = [110, 0, 0, 0],
            new_peaks = [120, 0, 0, 0], priority = [1, 0, 0, 0]\<rparr>
   \<and> new_mins \<lparr>idx = 1, inew = 2, new_mins = [100, 150, 0, 0], new_maxs = [150, 160, 0, 0],
            new_peaks = [120, 155, 0, 0], priority = [0, 3, 0, 0]\<rparr> ! 1 = 150
   \<and> new_maxs \<lparr>idx = 1, inew = 1, new_mins = [100, 0, 0, 0], new_maxs = [110, 0, 0, 0],
            new_peaks = [120, 0, 0, 0], priority = [1, 0, 0, 0]\<rparr> ! 0 = 110"
proof -
  have a: "resolve_overlap 2 [150, 160, 0, 0] 1 110
       \<lparr>idx = 1, inew = 1, new_mins = [100, 0, 0, 0], new_maxs = [150, 0, 0, 0],
        new_peaks = [120, 0, 0, 0], priority = [0, 0, 0, 0]\<rparr>
     = Inr \<lparr>idx = 1, inew = 2, new_mins = [100, 150, 0, 0], new_maxs = [150, 160, 0, 0],
            new_peaks = [120, 155, 0, 0], priority = [0, 3, 0, 0]\<rparr>"
    by (simp add: resolve_overlap_def collapse.simps array_simps)
  have b: "resolve_overlap 2 [160, 150, 0, 0] 0 110
       \<lparr>idx = 1, inew = 1, new_mins = [100, 0, 0, 0], new_maxs = [150, 0, 0, 0],
        new_peaks = [120, 0, 0, 0], priority = [1, 0, 0, 0]\<rparr>
     = Inr \<lparr>idx = 1, inew = 1, new_mins = [100, 0, 0, 0], new_maxs = [110, 0, 0, 0],
            new_peaks = [120, 0, 0, 0], priority = [1, 0, 0, 0]\<rparr>"
    by (simp add: resolve_overlap_def collapse.simps array_simps)
  from resolve_overlap_by_priority [OF a] resolve_overlap_by_priority [OF b] a b
  show ?thesis by simp
qed

section \<open>Acceptance of the fitted components\<close>







section \<open>The suggested-width partition\<close>

text \<open>
  Claim C7 (the result when no histogram maximum survives: \<open>ceil((observed_max -
  observed_min) / vh_box)\<close> intervals of width \<^verbatim>\<open>vh_box\<close> that form a uniform partition
  starting at \<open>observed_min + (observed_max - observed_min) / count - vh_box\<close>), as stated.

  Two heights, the \<^verbatim>\<open>float\<close> values \<^verbatim>\<open>100.1f\<close> = 13120307 / 131072 and \<^verbatim>\<open>250.1f\<close> =
  16390554 / 65536, limits 50 and 300, nominal width 30.  Their difference is
  \<open>150 + 2 ^ -17\<close>, so the quotient by 30 is above 5 and the claimed count is 6.  Line 116
  subtracts in \<^verbatim>\<open>float\<close>, where the difference rounds to 150: the call returns 5
  intervals.  The first starts at 3280077 / 32768, above the observed minimum, where
  the claimed start for 5 intervals is \<open>100.1\<close>.

  Two heights, 50 and \<^verbatim>\<open>84.2f\<close> = 5518131 / 65536, limits 0 and 300, nominal width
  \<^verbatim>\<open>15.1f\<close> = 7916749 / 524288.  The second interval returned is narrower than the
  nominal width and ends below the start of the third.
\<close>

theorem uniform_partition_counterexample:
  "select_alt_groups (stat_collab (0, replicate 10 0) (0, [])) 2
       [13120307 / 131072, 16390554 / 65536] 50 300 30 2 10 (replicate 10 0) (replicate 10 0)
     = Some (Inr \<lparr>count = 5,
          mins = [3280077 / 32768, 4263117 / 32768, 5246157 / 32768, 6229197 / 32768,
                  7212237 / 32768, 0, 0, 0, 0, 0],
          maxs = [4263117 / 32768, 5246157 / 32768, 6229197 / 32768, 7212237 / 32768,
                  8195277 / 32768, 0, 0, 0, 0, 0],
          peaks = [3771597 / 32768, 3771597 / 32768, 3771597 / 32768, 3771597 / 32768,
                   3771597 / 32768, 0, 0, 0, 0, 0]\<rparr>)
   \<and> \<lceil>(float_absmax_spec 2 [13120307 / 131072, 16390554 / 65536]
        - float_absmin_spec 2 [13120307 / 131072, 16390554 / 65536]) / 30\<rceil> = 6
   \<and> float_absmin_spec 2 [13120307 / 131072, 16390554 / 65536]
        + (float_absmax_spec 2 [13120307 / 131072, 16390554 / 65536]
           - float_absmin_spec 2 [13120307 / 131072, 16390554 / 65536]) / 5 - 30
      < 3280077 / 32768
   \<and> float_absmin_spec 2 [13120307 / 131072, 16390554 / 65536] < 3280077 / 32768
   \<and> select_alt_groups (stat_collab (0, replicate 10 0) (0, [])) 2
       [50, 5518131 / 65536] 0 300 (7916749 / 524288) 2 10 (replicate 10 0) (replicate 10 0)
     = Some (Inr \<lparr>count = 3,
          mins = [6068633 / 131072, 2011955 / 32768, 153 / 2, 0, 0, 0, 0, 0, 0, 0],
          maxs = [2011955 / 32768, 10027007 / 131072, 12006195 / 131072, 0, 0, 0, 0, 0, 0, 0],
          peaks = [14116453 / 262144, 14116453 / 262144, 14116453 / 262144,
                   0, 0, 0, 0, 0, 0, 0]\<rparr>)
   \<and> (10027007 / 131072 :: real) - 2011955 / 32768 < 7916749 / 524288
   \<and> (10027007 / 131072 :: real) < 153 / 2"
  by (simp add: select_simps array_simps list_simps)

lemma uniform_fill_result:
  assumes "0 \<le> i" and "npeaks \<le> int (length a)" and "npeaks \<le> int (length b)"
    and "npeaks \<le> int (length c)"
  shows "\<exists>a' b' c'. uniform_fill vmin vh_box npeaks i a b c = Inr (a', b', c')
           \<and> length a' = length a \<and> length b' = length b
           \<and> (\<forall>k. i \<le> k \<and> k < npeaks \<longrightarrow>
                  a' ! nat k = f32 (vmin + f32 (f32 (of_int k) * vh_box))
                  \<and> b' ! nat k = f32 (f32 (vmin + f32 (f32 (of_int k) * vh_box)) + vh_box))
           \<and> (\<forall>k. 0 \<le> k \<and> k < i \<longrightarrow> a' ! nat k = a ! nat k \<and> b' ! nat k = b ! nat k)"
  using assms
proof (induction vmin vh_box npeaks i a b c rule: uniform_fill.induct)
  case (1 vmin vh_box npeaks i a b c)
  let ?L = "\<lambda>k::int. f32 (vmin + f32 (f32 (of_int k) * vh_box))"
  show ?case
  proof (cases "i < npeaks")
    case False
    then show ?thesis by (subst uniform_fill.simps) simp
  next
    case True
    let ?a = "a[nat i := ?L i]"
    let ?b = "b[nat i := f32 (?L i + vh_box)]"
    let ?c = "c[nat i := f32 (f64 (vmin + f64 (0.5 * vh_box)))]"
    from True "1.prems" have rng: "nat i < length a" "nat i < length b" "nat i < length c"
      by auto
    have step: "uniform_fill vmin vh_box npeaks i a b c
                  = uniform_fill vmin vh_box npeaks (i + 1) ?a ?b ?c"
      using True "1.prems" rng by (subst uniform_fill.simps) (simp add: thn_def rd_def wr_def)
    have "\<exists>a' b' c'. uniform_fill vmin vh_box npeaks (i + 1) ?a ?b ?c = Inr (a', b', c')
           \<and> length a' = length ?a \<and> length b' = length ?b
           \<and> (\<forall>k. i + 1 \<le> k \<and> k < npeaks \<longrightarrow>
                  a' ! nat k = ?L k \<and> b' ! nat k = f32 (?L k + vh_box))
           \<and> (\<forall>k. 0 \<le> k \<and> k < i + 1 \<longrightarrow> a' ! nat k = ?a ! nat k \<and> b' ! nat k = ?b ! nat k)"
      using True "1.prems" rng
      by (intro "1.IH" [OF True]) (simp_all add: wr_def rd_def)
    then obtain a' b' c' where
      r: "uniform_fill vmin vh_box npeaks (i + 1) ?a ?b ?c = Inr (a', b', c')"
      and la: "length a' = length a" and lb: "length b' = length b"
      and hi: "\<And>k. i + 1 \<le> k \<Longrightarrow> k < npeaks \<Longrightarrow>
                  a' ! nat k = ?L k \<and> b' ! nat k = f32 (?L k + vh_box)"
      and lo: "\<And>k. 0 \<le> k \<Longrightarrow> k < i + 1 \<Longrightarrow> a' ! nat k = ?a ! nat k \<and> b' ! nat k = ?b ! nat k"
      by auto
    have at_i: "a' ! nat i = ?L i \<and> b' ! nat i = f32 (?L i + vh_box)"
      using lo [of i] "1.prems"(1) rng by simp
    have keep: "a' ! nat k = a ! nat k \<and> b' ! nat k = b ! nat k" if "0 \<le> k" "k < i" for k
    proof -
      from that have "nat k \<noteq> nat i" by simp
      with lo [of k] that show ?thesis by simp
    qed
    have fill: "a' ! nat k = ?L k \<and> b' ! nat k = f32 (?L k + vh_box)"
      if "i \<le> k" "k < npeaks" for k
    proof (cases "k = i")
      case True
      with at_i show ?thesis by simp
    next
      case False
      with that hi [of k] show ?thesis by simp
    qed
    from step r la lb fill keep show ?thesis by simp
  qed
qed

lemma uniform_bins_result:
  assumes "max_vbin \<le> int (length vh_mins)" and "max_vbin \<le> int (length vh_maxs)"
    and "max_vbin \<le> int (length vh_peaks)"
    and "vh_box \<noteq> 0"
    and "d = f32 (local_max - local_min)"
    and "n = c_int (c_ceil (f64 (d / vh_box)))"
    and "vmin = f32 (f32 (f32 (d / f32 (of_int n)) + local_min) - vh_box)"
    and "n \<le> max_vbin"
  shows "\<exists>b. uniform_bins local_min local_max vh_box max_vbin vh_mins vh_maxs vh_peaks = Inr b
           \<and> count b = n
           \<and> (\<forall>k. 0 \<le> k \<and> k < n \<longrightarrow>
                 mins b ! nat k = f32 (vmin + f32 (f32 (of_int k) * vh_box))
                 \<and> maxs b ! nat k = f32 (mins b ! nat k + vh_box))"
proof -
  from assms have "0 \<le> (0::int)" "n \<le> int (length vh_mins)" "n \<le> int (length vh_maxs)"
    "n \<le> int (length vh_peaks)" by simp_all
  from uniform_fill_result [OF this, of vmin vh_box]
  obtain a' b' c' where
    r: "uniform_fill vmin vh_box n 0 vh_mins vh_maxs vh_peaks = Inr (a', b', c')"
    and v: "\<And>k. 0 \<le> k \<Longrightarrow> k < n \<Longrightarrow>
              a' ! nat k = f32 (vmin + f32 (f32 (of_int k) * vh_box))
              \<and> b' ! nat k = f32 (f32 (vmin + f32 (f32 (of_int k) * vh_box)) + vh_box)"
    by blast
  have "uniform_bins local_min local_max vh_box max_vbin vh_mins vh_maxs vh_peaks
          = Inr \<lparr>count = n, mins = a', maxs = b', peaks = c'\<rparr>"
    using assms(4-8) r by (simp add: uniform_bins_def Let_def thn_def)
  moreover have "mins \<lparr>count = n, mins = a', maxs = b', peaks = c'\<rparr> ! nat k
                   = f32 (vmin + f32 (f32 (of_int k) * vh_box))
                 \<and> maxs \<lparr>count = n, mins = a', maxs = b', peaks = c'\<rparr> ! nat k
                   = f32 (mins \<lparr>count = n, mins = a', maxs = b', peaks = c'\<rparr> ! nat k + vh_box)"
    if "0 \<le> k" "k < n" for k
    using v [OF that] by simp
  ultimately show ?thesis by auto
qed

lemma hist_bin_count_pos:
  assumes "0 < hist_bin_count vh_min vh_max vh_box"
  shows "vh_box \<noteq> 0"
proof
  assume "vh_box = 0"
  then have "hist_bin_count vh_min vh_max vh_box = int_min"
    by (simp add: hist_bin_count_def f64_def fl_zero Let_def int_min_def)
  with assms show False by (simp add: int_min_def)
qed

text \<open>
  Claim C7, amended.  \<open>f32\<close> and \<open>f64\<close> round to \<^verbatim>\<open>float\<close> and to \<^verbatim>\<open>double\<close>.
  When the maxima set is empty after line 107, \<^verbatim>\<open>select_alt_groups\<close> computes the
  difference \<open>d = f32 (observed_max - observed_min)\<close>, the count \<open>n\<close>, the ceiling of
  \<open>f64 (d / vh_box)\<close> cast to \<^verbatim>\<open>int\<close>, and the start
  \<open>vmin = f32 (f32 (f32 (d / n) + observed_min) - vh_box)\<close>.  If \<open>n\<close> exceeds \<^verbatim>\<open>max_vbin\<close> it
  stops with the fatal error of line 121.  Otherwise it returns \<open>n\<close>; interval \<open>k\<close>
  starts at \<open>f32 (vmin + f32 (k * vh_box))\<close> and ends at its start plus \<^verbatim>\<open>vh_box\<close>,
  rounded to \<^verbatim>\<open>float\<close>.  The caller's arrays hold at least \<^verbatim>\<open>max_vbin\<close> cells.
\<close>

theorem no_maxima_rounded_partition:
  assumes "hist_bin_count vh_min vh_max vh_box = nbin" and "0 < nbin"
    and "histogram K num vh nbin vh_min vh_max = (hist_bins, hist_edges)"
    and "int_argrelmax K nbin hist_bins 2 1 = (nmax0, ismax0)"
    and "add_absmax hist_bins ismax0 nmax0 (int_argabsmax K nbin hist_bins) min_pnts
           = Inr (ismax, 0)"
    and "max_vbin \<le> int (length vh_mins)" and "max_vbin \<le> int (length vh_maxs)"
    and "d = f32 (float_absmax K num vh - float_absmin K num vh)"
    and "n = c_int (c_ceil (f64 (d / vh_box)))"
    and "vmin = f32 (f32 (f32 (d / f32 (of_int n)) + float_absmin K num vh) - vh_box)"
  shows "if n > max_vbin
         then select_alt_groups K num vh vh_min vh_max vh_box min_pnts max_vbin vh_mins vh_maxs
                = Some (Inl Suggested_Width_Too_Many)
         else \<exists>b. select_alt_groups K num vh vh_min vh_max vh_box min_pnts max_vbin
                      vh_mins vh_maxs = Some (Inr b)
                \<and> count b = n
                \<and> (\<forall>k. 0 \<le> k \<and> k < n \<longrightarrow>
                      mins b ! nat k = f32 (vmin + f32 (f32 (of_int k) * vh_box))
                      \<and> maxs b ! nat k = f32 (mins b ! nat k + vh_box))"
proof -
  let ?peaks = "replicate (nat max_vbin) (0::real)"
  from assms(1,2) have nz: "vh_box \<noteq> 0" using hist_bin_count_pos by blast
  have sel: "select_alt_groups K num vh vh_min vh_max vh_box min_pnts max_vbin vh_mins vh_maxs
        = Some (uniform_bins (float_absmin K num vh) (float_absmax K num vh) vh_box max_vbin
                  vh_mins vh_maxs ?peaks)"
    using assms(1-5) by (simp add: select_alt_groups_def Let_def)
  show ?thesis
  proof (cases "n > max_vbin")
    case True
    with assms(8,9) nz sel show ?thesis by (simp add: uniform_bins_def Let_def)
  next
    case False
    then have le: "n \<le> max_vbin" by simp
    have "max_vbin \<le> int (length ?peaks)" by simp
    from uniform_bins_result [OF assms(6,7) this nz assms(8,9,10) le] sel False
    show ?thesis by simp
  qed
qed

text \<open>
  Five heights from 100 to 201 with no relative maximum in their histogram.  No
  operation rounds: four intervals of width 30, from 95.25 to 215.25.
\<close>

theorem no_maxima_rounded_partition_witness:
  "hist_bin_count 50 250 30 = 10 \<and> (0::int) < 10
   \<and> histogram (stat_collab (0, replicate 10 0) (0, [])) 5 [100, 130, 150, 170, 201] 10 50 250
       = ([0, 0, 1, 0, 1, 1, 1, 1, 0, 0], [50, 70, 90, 110, 130, 150, 170, 190, 210, 230])
   \<and> int_argrelmax (stat_collab (0, replicate 10 0) (0, [])) 10
         [0, 0, 1, 0, 1, 1, 1, 1, 0, 0] 2 1 = (0, replicate 10 0)
   \<and> add_absmax [0, 0, 1, 0, 1, 1, 1, 1, 0, 0] (replicate 10 0) 0
         (int_argabsmax (stat_collab (0, replicate 10 0) (0, [])) 10
            [0, 0, 1, 0, 1, 1, 1, 1, 0, 0]) 2 = Inr (replicate 10 0, 0)
   \<and> (10::int) \<le> int (length (replicate 10 (0::real)))
   \<and> (101::real) = f32 (float_absmax (stat_collab (0, replicate 10 0) (0, [])) 5
                      [100, 130, 150, 170, 201]
                    - float_absmin (stat_collab (0, replicate 10 0) (0, [])) 5
                      [100, 130, 150, 170, 201])
   \<and> (4::int) = c_int (c_ceil (f64 (101 / 30)))
   \<and> (95.25::real) = f32 (f32 (f32 (101 / f32 (of_int 4))
         + float_absmin (stat_collab (0, replicate 10 0) (0, [])) 5 [100, 130, 150, 170, 201])
         - 30)
   \<and> (\<exists>b. select_alt_groups (stat_collab (0, replicate 10 0) (0, [])) 5
              [100, 130, 150, 170, 201] 50 250 30 2 10 (replicate 10 0) (replicate 10 0)
            = Some (Inr b)
          \<and> count b = 4
          \<and> mins b ! 0 = 95.25 \<and> maxs b ! 0 = 125.25 \<and> mins b ! 3 = 185.25
          \<and> maxs b ! 3 = 215.25)"
proof -
  let ?K = "stat_collab (0, replicate 10 0) (0, [])"
  let ?vh = "[100, 130, 150, 170, 201] :: real list"
  let ?hb = "[0, 0, 1, 0, 1, 1, 1, 1, 0, 0] :: int list"
  have mm: "float_absmin ?K 5 ?vh = 100" "float_absmax ?K 5 ?vh = 201"
    by (simp_all add: stat_collab_def float_absmax_spec_def float_absmin_spec_def)
  have 1: "hist_bin_count 50 250 30 = 10" by (simp add: hist_bin_count_def array_simps)
  have 2: "(0::int) < 10" by simp
  have 3: "histogram ?K 5 ?vh 10 50 250
             = (?hb, [50, 70, 90, 110, 130, 150, 170, 190, 210, 230])"
    by (simp add: stat_collab_def histogram_spec_def list_simps)
  have 4: "int_argrelmax ?K 10 ?hb 2 1 = (0, replicate 10 0)" by (simp add: stat_collab_def)
  have 5: "add_absmax ?hb (replicate 10 0) 0 (int_argabsmax ?K 10 ?hb) 2 = Inr (replicate 10 0, 0)"
    by (simp add: add_absmax_def stat_collab_def int_argabsmax_spec_def array_simps list_simps)
  have 6: "(10::int) \<le> int (length (replicate 10 (0::real)))" by simp
  have 7: "(101::real) = f32 (float_absmax ?K 5 ?vh - float_absmin ?K 5 ?vh)"
    by (simp add: mm float_simps Let_def)
  have 8: "(4::int) = c_int (c_ceil (f64 (101 / 30)))"
    by (simp add: array_simps)
  have 9: "(95.25::real) = f32 (f32 (f32 (101 / f32 (of_int 4)) + float_absmin ?K 5 ?vh) - 30)"
    by (simp add: mm float_simps Let_def)
  from no_maxima_rounded_partition [OF 1 2 3 4 5 6 6 7 8 9]
  obtain b where b: "select_alt_groups ?K 5 ?vh 50 250 30 2 10 (replicate 10 0) (replicate 10 0)
                       = Some (Inr b)"
    and c: "count b = 4"
    and v: "\<And>k. 0 \<le> k \<Longrightarrow> k < 4 \<Longrightarrow>
              mins b ! nat k = f32 (95.25 + f32 (f32 (of_int k) * 30))
              \<and> maxs b ! nat k = f32 (mins b ! nat k + 30)"
    by auto
  have m0: "mins b ! 0 = 381 / 4" and m3: "mins b ! 3 = 741 / 4"
    using v [of 0] v [of 3] by (simp_all add: float_simps Let_def)
  have "maxs b ! 0 = f32 (mins b ! 0 + 30)" and "maxs b ! 3 = f32 (mins b ! 3 + 30)"
    using v [of 0] v [of 3] by simp_all
  then have "maxs b ! 0 = 501 / 4" and "maxs b ! 3 = 861 / 4"
    by (simp_all add: m0 m3 float_simps Let_def)
  with m0 m3 have "mins b ! 0 = 95.25 \<and> maxs b ! 0 = 125.25 \<and> mins b ! 3 = 185.25
          \<and> maxs b ! 3 = 215.25"
    by simp
  with 1 2 3 4 5 6 7 8 9 b c show ?thesis by blast
qed

section \<open>Rounding error\<close>












section \<open>Coverage\<close>




lemma chained_idx [simp]: "chained (st\<lparr>idx := i\<rparr>) = chained st"
  by (simp add: chained_def)































section \<open>Order of the samples\<close>

lemma fold_min_Min: "fold min vs (v::real) = Min (set (v # vs))"
  by (simp only: Min.set_eq_fold)

lemma fold_max_Max: "fold max vs (v::real) = Max (set (v # vs))"
  by (simp only: Max.set_eq_fold)

lemma float_absmin_spec_mset:
  assumes "mset vh = mset vh'"
  shows "float_absmin_spec (int (length vh)) vh = float_absmin_spec (int (length vh')) vh'"
proof -
  from assms have s: "set vh = set vh'" by (rule mset_eq_setD)
  show ?thesis
  proof (cases vh)
    case Nil
    with assms show ?thesis by (simp add: float_absmin_spec_def)
  next
    case (Cons v vs)
    with assms obtain w ws where w: "vh' = w # ws" by (cases vh') auto
    from s Cons w have "Min (set (v # vs)) = Min (set (w # ws))" by simp
    with Cons w show ?thesis by (simp add: float_absmin_spec_def fold_min_Min del: set_simps)
  qed
qed

lemma float_absmax_spec_mset:
  assumes "mset vh = mset vh'"
  shows "float_absmax_spec (int (length vh)) vh = float_absmax_spec (int (length vh')) vh'"
proof -
  from assms have s: "set vh = set vh'" by (rule mset_eq_setD)
  show ?thesis
  proof (cases vh)
    case Nil
    with assms show ?thesis by (simp add: float_absmax_spec_def)
  next
    case (Cons v vs)
    with assms obtain w ws where w: "vh' = w # ws" by (cases vh') auto
    from s Cons w have "Max (set (v # vs)) = Max (set (w # ws))" by simp
    with Cons w show ?thesis by (simp add: float_absmax_spec_def fold_max_Max del: set_simps)
  qed
qed

lemma length_filter_mset:
  assumes "mset xs = mset ys"
  shows "length (filter P xs) = length (filter P ys)"
proof -
  from assms have "mset (filter P xs) = mset (filter P ys)" by simp
  then show ?thesis by (rule mset_eq_length)
qed

lemma histogram_spec_mset:
  assumes "mset vh = mset vh'"
  shows "histogram_spec (int (length vh)) vh nbin lower upper
           = histogram_spec (int (length vh')) vh' nbin lower upper"
proof -
  have "\<And>P. length (filter P vh) = length (filter P vh')"
    using assms by (rule length_filter_mset)
  then show ?thesis
    by (simp add: histogram_spec_def Let_def)
qed

lemma stat_collab_order_independent: "order_independent (stat_collab relmax fit)"
  unfolding order_independent_def
proof (intro allI impI conjI)
  fix vh vh' :: "real list" and nbin lower upper
  assume m: "mset vh = mset vh'"
  show "histogram (stat_collab relmax fit) (int (length vh)) vh nbin lower upper
          = histogram (stat_collab relmax fit) (int (length vh')) vh' nbin lower upper"
    using histogram_spec_mset [OF m] by (simp add: stat_collab_def)
  show "float_absmin (stat_collab relmax fit) (int (length vh)) vh
          = float_absmin (stat_collab relmax fit) (int (length vh')) vh'"
    using float_absmin_spec_mset [OF m] by (simp add: stat_collab_def)
  show "float_absmax (stat_collab relmax fit) (int (length vh)) vh
          = float_absmax (stat_collab relmax fit) (int (length vh')) vh'"
    using float_absmax_spec_mset [OF m] by (simp add: stat_collab_def)
qed

text \<open>
  Claim C9 (permuting the samples does not change the result).
  \<^verbatim>\<open>select_alt_groups\<close> reads the sample array only through \<^verbatim>\<open>histogram\<close>,
  \<^verbatim>\<open>float_absmin\<close> and \<^verbatim>\<open>float_absmax\<close>: when these three do not depend on the order
  of the samples, two arrays with the same multiset of heights give the same outcome,
  with the same count and the same contents of \<^verbatim>\<open>vh_mins\<close> and \<^verbatim>\<open>vh_maxs\<close>.
\<close>

theorem select_alt_groups_order_independent:
  assumes "order_independent K" and "mset vh = mset vh'" and "num = int (length vh)"
  shows "select_alt_groups K num vh vh_min vh_max vh_box min_pnts max_vbin vh_mins vh_maxs
           = select_alt_groups K num vh' vh_min vh_max vh_box min_pnts max_vbin vh_mins vh_maxs"
proof -
  from assms(2) have "length vh = length vh'" by (rule mset_eq_length)
  with assms(3) have num': "num = int (length vh')" by simp
  from assms(1,2) have
    "\<And>nbin lower upper. histogram K (int (length vh)) vh nbin lower upper
          = histogram K (int (length vh')) vh' nbin lower upper"
    and "float_absmin K (int (length vh)) vh = float_absmin K (int (length vh')) vh'"
    and "float_absmax K (int (length vh)) vh = float_absmax K (int (length vh')) vh'"
    unfolding order_independent_def by blast+
  then have
    h: "\<And>nbin lower upper. histogram K num vh nbin lower upper
          = histogram K num vh' nbin lower upper"
    and lo: "float_absmin K num vh = float_absmin K num vh'"
    and hi: "float_absmax K num vh = float_absmax K num vh'"
    by (simp_all only: assms(3) [symmetric] num' [symmetric])
  show ?thesis
    unfolding select_alt_groups_def by (simp only: h lo hi)
qed

text \<open>
  The statistics modelled from their contracts are order independent; five heights and a
  permutation of them.
\<close>

theorem select_alt_groups_order_independent_witness:
  "order_independent (stat_collab (0, replicate 10 0) (0, []))
   \<and> mset [100, 130, 150, 170, 201 :: real] = mset [201, 150, 100, 170, 130]
   \<and> (5 :: int) = int (length [100, 130, 150, 170, 201 :: real])
   \<and> select_alt_groups (stat_collab (0, replicate 10 0) (0, [])) 5 [100, 130, 150, 170, 201]
        50 250 30 2 10 (replicate 10 0) (replicate 10 0)
      = select_alt_groups (stat_collab (0, replicate 10 0) (0, [])) 5 [201, 150, 100, 170, 130]
        50 250 30 2 10 (replicate 10 0) (replicate 10 0)"
proof -
  have m: "mset [100, 130, 150, 170, 201 :: real] = mset [201, 150, 100, 170, 130]" by simp
  have n: "(5 :: int) = int (length [100, 130, 150, 170, 201 :: real])" by simp
  note r = select_alt_groups_order_independent [OF stat_collab_order_independent m n]
  show ?thesis by (intro conjI stat_collab_order_independent m n r)
qed

end
